theory Spec2Isabelle
  imports Complex_Main
begin

section \<open>Numbers, vectors and failures\<close>

text \<open>
  The controller of \<^verbatim>\<open>main.cpp\<close> computes with \<^verbatim>\<open>double\<close>. The embedding
  reads every \<^verbatim>\<open>double\<close> as a real number, so the statements below are about the
  arithmetic the program writes down, not about rounding. A \<^verbatim>\<open>std::vector<double>\<close>
  and an \<^verbatim>\<open>Eigen::VectorXd\<close> are lists of reals, a matrix is the list of its rows.
  Sizes and loop counters are natural numbers: the vectors of one telemetry message
  (a handful of waypoints, the horizon of the solver) stay far below the \<open>2 ^ 31\<close> at
  which an \<^verbatim>\<open>int\<close> counter would wrap.
\<close>

type_synonym vec = "real list"
type_synonym matrix = "real list list"

text \<open>
  Two ways in which the program stops without a result: a failed \<^verbatim>\<open>assert\<close>
  (the process aborts; the program is built with its assertions on) and a read or
  write outside a vector, which C++ leaves undefined. The program has no exceptions and
  no error codes of its own.
\<close>

datatype failure = AssertionFailed | OutOfBounds

section \<open>polyeval\<close>

text \<open>
  \<^verbatim>\<open>double polyeval(Eigen::VectorXd coeffs, double x)\<close>: the loop adds
  \<^verbatim>\<open>coeffs[i] * pow(x, i)\<close> to \<^verbatim>\<open>result\<close> for \<^verbatim>\<open>i = 0 .. coeffs.size() - 1\<close>.
\<close>

definition polyeval :: "vec \<Rightarrow> real \<Rightarrow> real" where
  "polyeval coeffs x =
     fold (\<lambda>i result. result + coeffs ! i * x ^ i) [0..<length coeffs] 0.0"

section \<open>polyfit\<close>

text \<open>
  \<^verbatim>\<open>A(r, c) = a\<close> on a matrix stored as the list of its rows.
\<close>

definition set_entry :: "matrix \<Rightarrow> nat \<Rightarrow> nat \<Rightarrow> real \<Rightarrow> matrix" where
  "set_entry A r c a = A[r := (A ! r)[c := a]]"

text \<open>
  The two loops of \<^verbatim>\<open>polyfit\<close> that fill \<^verbatim>\<open>Eigen::MatrixXd A(xvals.size(), order + 1)\<close>:
  the first sets column 0 to \<^verbatim>\<open>1.0\<close>, the second sets
  \<^verbatim>\<open>A(j, i + 1) = A(j, i) * xvals(j)\<close> for \<^verbatim>\<open>i < order\<close> in every row \<^verbatim>\<open>j\<close>.
  \<open>A0\<close> is the matrix as allocated; Eigen leaves its entries unset.
\<close>

definition fill_A :: "matrix \<Rightarrow> vec \<Rightarrow> nat \<Rightarrow> matrix" where
  "fill_A A0 xvals order =
     (let A1 = fold (\<lambda>i A. set_entry A i 0 1.0) [0..<length xvals] A0
      in fold (\<lambda>j A. fold (\<lambda>i A. set_entry A j (i + 1) (A ! j ! i * xvals ! j)) [0..<order] A)
           [0..<length xvals] A1)"

definition polyfit_A :: "vec \<Rightarrow> nat \<Rightarrow> matrix" where
  "polyfit_A xvals order =
     fill_A (replicate (length xvals) (replicate (order + 1) 0)) xvals order"

text \<open>
  \<^verbatim>\<open>Eigen::VectorXd polyfit(Eigen::VectorXd xvals, Eigen::VectorXd yvals, int order)\<close>.
  The two \<^verbatim>\<open>assert\<close>s come first; \<^verbatim>\<open>xvals.size()\<close> is a signed
  \<^verbatim>\<open>Eigen::Index\<close>, so \<^verbatim>\<open>xvals.size() - 1\<close> is \<open>-1\<close> for an empty vector.
  \<^verbatim>\<open>A.householderQr().solve(yvals)\<close> is Eigen's code, not this repository's: it
  is the parameter \<open>qr_solve\<close>, applied to the matrix the loops built and to \<^verbatim>\<open>yvals\<close>.
\<close>

definition polyfit :: "(matrix \<Rightarrow> vec \<Rightarrow> vec) \<Rightarrow> vec \<Rightarrow> vec \<Rightarrow> int \<Rightarrow> failure + vec" where
  "polyfit qr_solve xvals yvals order =
     (if length xvals \<noteq> length yvals then Inl AssertionFailed
      else if \<not> (order \<ge> 1 \<and> order \<le> int (length xvals) - 1) then Inl AssertionFailed
      else Inr (qr_solve (polyfit_A xvals (nat order)) yvals))"

text \<open>
  What the linear system of \<^verbatim>\<open>polyfit\<close> says: the product of a matrix with a
  coefficient vector, and the sum of the squared differences to the right-hand side.
\<close>

definition mat_vec :: "matrix \<Rightarrow> vec \<Rightarrow> vec" where
  "mat_vec A c = map (\<lambda>row. \<Sum>k<length c. row ! k * c ! k) A"

definition sq_residual :: "matrix \<Rightarrow> vec \<Rightarrow> vec \<Rightarrow> real" where
  "sq_residual A c y = (\<Sum>i<length y. (mat_vec A c ! i - y ! i)\<^sup>2)"

definition sq_error :: "vec \<Rightarrow> vec \<Rightarrow> vec \<Rightarrow> real" where
  "sq_error c xvals yvals = (\<Sum>i<length yvals. (polyeval c (xvals ! i) - yvals ! i)\<^sup>2)"

subsection \<open>The solver of the linear system\<close>

text \<open>
  Modelled from the spec: \<^verbatim>\<open>A.householderQr().solve(yvals)\<close> of the Eigen library that
  the repository carries in \<^verbatim>\<open>src/Eigen-3.3\<close>, which is not among the sources here. The
  spec asks for the least-squares coefficients "via a numerically stable factorization
  (QR or equivalent)" of the matrix, and wants a result also for repeated x values. The
  model orthogonalises the columns one after the other, which gives the orthogonal factor
  of a QR factorisation without normalising it (so without square roots), and finds the
  coefficients by back substitution; a column that is zero once the earlier ones are
  removed from it gets the coefficient 0. \<open>dot n u w\<close> is the inner product of the first
  \<open>n\<close> entries, \<open>remove_component n a b\<close> is \<open>b\<close> without its part along \<open>a\<close>.
\<close>

definition dot :: "nat \<Rightarrow> vec \<Rightarrow> vec \<Rightarrow> real" where
  "dot n u w = (\<Sum>i<n. u ! i * w ! i)"

definition remove_component :: "nat \<Rightarrow> vec \<Rightarrow> vec \<Rightarrow> vec" where
  "remove_component n a b = map (\<lambda>i. b ! i - dot n b a / dot n a a * a ! i) [0..<n]"

function lsq_columns :: "nat \<Rightarrow> vec list \<Rightarrow> vec \<Rightarrow> vec" where
  "lsq_columns n [] y = []"
| "lsq_columns n (a # as) y =
     (if dot n a a = 0 then 0 # lsq_columns n as y
      else
        (let cs = lsq_columns n (map (remove_component n a) as) (remove_component n a y)
         in (dot n y a - (\<Sum>j<length as. cs ! j * dot n (as ! j) a)) / dot n a a # cs))"
  by pat_completeness auto
termination
  by (relation "measure (\<lambda>(n, as, y). length as)") auto

definition columns :: "matrix \<Rightarrow> vec list" where
  "columns A =
     map (\<lambda>j. map (\<lambda>row. row ! j) A) [0..<(case A of [] \<Rightarrow> 0 | row # _ \<Rightarrow> length row)]"

text \<open>
  Modelled from the spec: the least-squares solution of \<open>A c = y\<close> that stands for
  \<^verbatim>\<open>A.householderQr().solve(y)\<close>, computed on the columns of \<open>A\<close>.
\<close>

definition householderQr_solve :: "matrix \<Rightarrow> vec \<Rightarrow> vec" where
  "householderQr_solve A y = lsq_columns (length A) (columns A) y"

text \<open>
  Entry \<open>i\<close> of the combination of the columns \<open>as\<close> with the coefficients \<open>cs\<close>.
\<close>

definition fitted :: "vec list \<Rightarrow> vec \<Rightarrow> nat \<Rightarrow> real" where
  "fitted as cs i = (\<Sum>j<length as. cs ! j * as ! j ! i)"

section \<open>The telemetry handler\<close>

text \<open>
  The fields of the telemetry object \<^verbatim>\<open>j[1]\<close> that the handler reads:
  \<^verbatim>\<open>ptsx\<close>, \<^verbatim>\<open>ptsy\<close>, \<^verbatim>\<open>x\<close>, \<^verbatim>\<open>y\<close>, \<^verbatim>\<open>psi\<close>, \<^verbatim>\<open>speed\<close>,
  \<^verbatim>\<open>steering_angle\<close> and \<^verbatim>\<open>throttle\<close>.
\<close>

record telemetry =
  j_ptsx :: vec
  j_ptsy :: vec
  j_x :: real
  j_y :: real
  j_psi :: real
  j_speed :: real
  j_steering_angle :: real
  j_throttle :: real

definition deg2rad :: "real \<Rightarrow> real" where
  "deg2rad x = x * pi / 180"

subsection \<open>Prediction after the latency\<close>

definition latency :: real where
  "latency = 0.1"

definition Lf :: real where
  "Lf = 2.67"

record prediction =
  px_pred :: real
  py_pred :: real
  psi_pred :: real
  v_pred :: real

definition predict :: "real \<Rightarrow> real \<Rightarrow> real \<Rightarrow> real \<Rightarrow> real \<Rightarrow> real \<Rightarrow> prediction" where
  "predict px py psi v steering throttle =
     \<lparr> px_pred = px + v * cos psi * latency,
       py_pred = py + v * sin psi * latency,
       psi_pred = psi - v / Lf * latency * steering,
       v_pred = v + throttle * 9.81 * latency \<rparr>"

subsection \<open>Waypoints in the car's coordinate system\<close>

text \<open>The body of the conversion loop, for one waypoint \<open>(wx, wy)\<close>.\<close>

definition car_coords :: "prediction \<Rightarrow> real \<Rightarrow> real \<Rightarrow> real \<times> real" where
  "car_coords p wx wy =
     (let x = wx - px_pred p;
          y = wy - py_pred p
      in (x * cos (- psi_pred p) - y * sin (- psi_pred p),
          x * sin (- psi_pred p) + y * cos (- psi_pred p)))"

text \<open>
  The loop runs \<^verbatim>\<open>i\<close> over \<^verbatim>\<open>ptsx.size()\<close> and reads \<^verbatim>\<open>ptsy[i]\<close>: with fewer
  \<^verbatim>\<open>ptsy\<close> than \<^verbatim>\<open>ptsx\<close> it leaves the vector. \<^verbatim>\<open>ptsx_cc\<close> has the size of
  \<^verbatim>\<open>ptsx\<close> and \<^verbatim>\<open>ptsy_cc\<close> the size of \<^verbatim>\<open>ptsy\<close>; entries the loop does not
  reach stay as allocated (here 0; \<^verbatim>\<open>polyfit\<close> then refuses the unequal sizes).
\<close>

definition to_car :: "prediction \<Rightarrow> vec \<Rightarrow> vec \<Rightarrow> failure + vec \<times> vec" where
  "to_car p ptsx ptsy =
     fold (\<lambda>i acc.
             case acc of
               Inl e \<Rightarrow> Inl e
             | Inr (ptsx_cc, ptsy_cc) \<Rightarrow>
                 if i < length ptsy
                 then Inr (ptsx_cc[i := fst (car_coords p (ptsx ! i) (ptsy ! i))],
                           ptsy_cc[i := snd (car_coords p (ptsx ! i) (ptsy ! i))])
                 else Inl OutOfBounds)
       [0..<length ptsx]
       (Inr (replicate (length ptsx) 0, replicate (length ptsy) 0))"

subsection \<open>Cross track error and orientation error\<close>

definition cte :: "vec \<Rightarrow> real" where
  "cte coeffs = polyeval coeffs 0"

definition epsi :: "vec \<Rightarrow> failure + real" where
  "epsi coeffs = (if 1 < length coeffs then Inr (- arctan (coeffs ! 1)) else Inl OutOfBounds)"

text \<open>
  Everything up to the call \<^verbatim>\<open>mpc.Solve(state, coeffs)\<close>: the speed in m/s, the
  prediction, the conversion of the waypoints, the fit of order 3, the two errors and
  the state vector. The result is \<open>(state, coeffs, ptsx_cc, ptsy_cc)\<close>.
\<close>

definition solver_input ::
  "(matrix \<Rightarrow> vec \<Rightarrow> vec) \<Rightarrow> telemetry \<Rightarrow> failure + vec \<times> vec \<times> vec \<times> vec" where
  "solver_input qr_solve tel =
     (let v = j_speed tel * 0.44704;
          p = predict (j_x tel) (j_y tel) (j_psi tel) v (j_steering_angle tel) (j_throttle tel)
      in case to_car p (j_ptsx tel) (j_ptsy tel) of
           Inl e \<Rightarrow> Inl e
         | Inr (ptsx_cc, ptsy_cc) \<Rightarrow>
             (case polyfit qr_solve ptsx_cc ptsy_cc 3 of
                Inl e \<Rightarrow> Inl e
              | Inr coeffs \<Rightarrow>
                  (case epsi coeffs of
                     Inl e \<Rightarrow> Inl e
                   | Inr epsi_val \<Rightarrow>
                       Inr ([0, 0, 0, v_pred p, cte coeffs, epsi_val], coeffs, ptsx_cc, ptsy_cc))))"

subsection \<open>The solution of the solver\<close>

text \<open>
  The fields of \<^verbatim>\<open>msgJson\<close>, the message sent back: \<^verbatim>\<open>steering_angle\<close>,
  \<^verbatim>\<open>throttle\<close>, the predicted trajectory \<^verbatim>\<open>mpc_x\<close>, \<^verbatim>\<open>mpc_y\<close> and the
  reference line \<^verbatim>\<open>next_x\<close>, \<^verbatim>\<open>next_y\<close>.
\<close>

record message =
  msg_steering_angle :: real
  msg_throttle :: real
  msg_mpc_x :: vec
  msg_mpc_y :: vec
  msg_next_x :: vec
  msg_next_y :: vec

text \<open>
  \<^verbatim>\<open>steer_value\<close>, \<^verbatim>\<open>throttle_value\<close> and the loop that splits the rest of
  \<^verbatim>\<open>solution\<close> with \<^verbatim>\<open>N = (solution.size() - 2) / 2\<close>. Reading \<^verbatim>\<open>solution[0]\<close>
  or \<^verbatim>\<open>solution[1]\<close> of a shorter vector leaves the vector.
\<close>

definition unpack_solution :: "vec \<Rightarrow> failure + real \<times> real \<times> vec \<times> vec" where
  "unpack_solution solution =
     (if length solution < 2 then Inl OutOfBounds
      else
        (let steer_value = - 1 * solution ! 0 / deg2rad 25;
             throttle_value = solution ! 1;
             N = (length solution - 2) div 2;
             (mpc_x_vals, mpc_y_vals) =
               fold (\<lambda>i (xs, ys). (xs @ [solution ! (i + 2)], ys @ [solution ! (i + 2 + N)]))
                 [0..<N] ([], [])
         in Inr (steer_value, throttle_value, mpc_x_vals, mpc_y_vals)))"

text \<open>
  The telemetry branch of the handler. \<^verbatim>\<open>MPC::Solve\<close> is declared in
  \<^verbatim>\<open>MPC.h\<close>; it is the parameter \<open>mpc_solve\<close>.
\<close>

definition on_telemetry ::
  "(matrix \<Rightarrow> vec \<Rightarrow> vec) \<Rightarrow> (vec \<Rightarrow> vec \<Rightarrow> vec) \<Rightarrow> telemetry \<Rightarrow> failure + message" where
  "on_telemetry qr_solve mpc_solve tel =
     (case solver_input qr_solve tel of
        Inl e \<Rightarrow> Inl e
      | Inr (state, coeffs, ptsx_cc, ptsy_cc) \<Rightarrow>
          (case unpack_solution (mpc_solve state coeffs) of
             Inl e \<Rightarrow> Inl e
           | Inr (steer_value, throttle_value, mpc_x_vals, mpc_y_vals) \<Rightarrow>
               (let (next_x_vals, next_y_vals) =
                      fold (\<lambda>i (xs, ys). (xs @ [ptsx_cc ! i], ys @ [ptsy_cc ! i]))
                        [0..<length ptsx_cc] ([], [])
                in Inr \<lparr> msg_steering_angle = steer_value, msg_throttle = throttle_value,
                         msg_mpc_x = mpc_x_vals, msg_mpc_y = mpc_y_vals,
                         msg_next_x = next_x_vals, msg_next_y = next_y_vals \<rparr>)))"

section \<open>Arithmetic with a domain\<close>

text \<open>
  The same prediction, conversion and errors once more, with every operator of the
  source written as an operation that can be undefined: the result \<open>None\<close> stands for an
  operation applied outside its domain. A division is undefined for the divisor 0,
  \<^verbatim>\<open>pow(x, i)\<close> with an integer \<open>i\<close> for \<open>x = 0\<close> and \<open>i < 0\<close>; the sum, the difference, the
  product, the negation, \<^verbatim>\<open>cos\<close>, \<^verbatim>\<open>sin\<close> and \<^verbatim>\<open>atan\<close> are defined for all reals. An
  operation on an undefined operand is undefined.
\<close>

definition d_lift1 :: "(real \<Rightarrow> real option) \<Rightarrow> real option \<Rightarrow> real option" where
  "d_lift1 f a = (case a of None \<Rightarrow> None | Some x \<Rightarrow> f x)"

definition d_lift2 ::
  "(real \<Rightarrow> real \<Rightarrow> real option) \<Rightarrow> real option \<Rightarrow> real option \<Rightarrow> real option" where
  "d_lift2 f a b =
     (case a of None \<Rightarrow> None | Some x \<Rightarrow> (case b of None \<Rightarrow> None | Some y \<Rightarrow> f x y))"

definition d_add :: "real option \<Rightarrow> real option \<Rightarrow> real option" where
  "d_add = d_lift2 (\<lambda>x y. Some (x + y))"

definition d_sub :: "real option \<Rightarrow> real option \<Rightarrow> real option" where
  "d_sub = d_lift2 (\<lambda>x y. Some (x - y))"

definition d_mul :: "real option \<Rightarrow> real option \<Rightarrow> real option" where
  "d_mul = d_lift2 (\<lambda>x y. Some (x * y))"

definition d_div :: "real option \<Rightarrow> real option \<Rightarrow> real option" where
  "d_div = d_lift2 (\<lambda>x y. if y = 0 then None else Some (x / y))"

definition d_neg :: "real option \<Rightarrow> real option" where
  "d_neg = d_lift1 (\<lambda>x. Some (- x))"

definition d_cos :: "real option \<Rightarrow> real option" where
  "d_cos = d_lift1 (\<lambda>x. Some (cos x))"

definition d_sin :: "real option \<Rightarrow> real option" where
  "d_sin = d_lift1 (\<lambda>x. Some (sin x))"

definition d_atan :: "real option \<Rightarrow> real option" where
  "d_atan = d_lift1 (\<lambda>x. Some (arctan x))"

definition d_pow :: "real option \<Rightarrow> int \<Rightarrow> real option" where
  "d_pow a i = d_lift1 (\<lambda>x. if x = 0 \<and> i < 0 then None else Some (x powi i)) a"

text \<open>The four assignments of the prediction, operator by operator.\<close>

definition predict_defined ::
  "real \<Rightarrow> real \<Rightarrow> real \<Rightarrow> real \<Rightarrow> real \<Rightarrow> real \<Rightarrow> prediction option" where
  "predict_defined px py psi v steering throttle =
     (case (d_add (Some px) (d_mul (d_mul (Some v) (d_cos (Some psi))) (Some latency)),
            d_add (Some py) (d_mul (d_mul (Some v) (d_sin (Some psi))) (Some latency)),
            d_sub (Some psi) (d_mul (d_mul (d_div (Some v) (Some Lf)) (Some latency)) (Some steering)),
            d_add (Some v) (d_mul (d_mul (Some throttle) (Some 9.81)) (Some latency))) of
        (Some x', Some y', Some psi', Some v') \<Rightarrow>
          Some \<lparr> px_pred = x', py_pred = y', psi_pred = psi', v_pred = v' \<rparr>
      | _ \<Rightarrow> None)"

text \<open>The body of the conversion loop, operator by operator.\<close>

definition car_coords_defined :: "prediction \<Rightarrow> real \<Rightarrow> real \<Rightarrow> (real \<times> real) option" where
  "car_coords_defined p wx wy =
     (let x = d_sub (Some wx) (Some (px_pred p));
          y = d_sub (Some wy) (Some (py_pred p))
      in case (d_sub (d_mul x (d_cos (d_neg (Some (psi_pred p)))))
                     (d_mul y (d_sin (d_neg (Some (psi_pred p))))),
               d_add (d_mul x (d_sin (d_neg (Some (psi_pred p)))))
                     (d_mul y (d_cos (d_neg (Some (psi_pred p)))))) of
           (Some x_cc, Some y_cc) \<Rightarrow> Some (x_cc, y_cc)
         | _ \<Rightarrow> None)"

text \<open>
  The loop of \<^verbatim>\<open>polyeval\<close> and the two errors, operator by operator; \<^verbatim>\<open>coeffs[1]\<close> is
  undefined for a vector with fewer than two entries.
\<close>

definition polyeval_defined :: "vec \<Rightarrow> real \<Rightarrow> real option" where
  "polyeval_defined coeffs x =
     fold (\<lambda>i result. d_add result (d_mul (Some (coeffs ! i)) (d_pow (Some x) (int i))))
       [0..<length coeffs] (Some 0.0)"

definition cte_defined :: "vec \<Rightarrow> real option" where
  "cte_defined coeffs = polyeval_defined coeffs 0"

definition epsi_defined :: "vec \<Rightarrow> real option" where
  "epsi_defined coeffs =
     (if 1 < length coeffs then d_neg (d_atan (Some (coeffs ! 1))) else None)"

section \<open>Properties of polyeval\<close>

lemma polyeval_loop:
  "fold (\<lambda>i result. result + f i) [0..<n] (a::real) = a + (\<Sum>i<n. f i)"
  by (induction n arbitrary: a) (simp_all add: add.assoc)

lemma polyeval_sum: "polyeval coeffs x = (\<Sum>i<length coeffs. coeffs ! i * x ^ i)"
  unfolding polyeval_def by (simp add: polyeval_loop)

lemma polyeval_Cons: "polyeval (c # cs) x = c + x * polyeval cs x"
proof -
  have "(\<Sum>i<Suc (length cs). (c # cs) ! i * x ^ i)
      = c + (\<Sum>i<length cs. cs ! i * x ^ Suc i)"
    by (subst sum.lessThan_Suc_shift) simp
  also have "(\<Sum>i<length cs. cs ! i * x ^ Suc i) = x * (\<Sum>i<length cs. cs ! i * x ^ i)"
    by (simp add: sum_distrib_left mult_ac)
  finally show ?thesis by (simp add: polyeval_sum)
qed

section \<open>The matrix of polyfit\<close>

text \<open>
  The loops of \<^verbatim>\<open>polyfit\<close> write every entry of the matrix, whatever it held
  before: row \<open>j\<close> becomes \<open>1, x\<^sub>j, x\<^sub>j\<^sup>2, \<dots>\<close> up to the power \<open>order\<close>.
\<close>

lemma inner_row:
  "j < length A \<Longrightarrow>
   fold (\<lambda>i A. set_entry A j (Suc i) (A ! j ! i * x)) [0..<m] A
     = A[j := fold (\<lambda>i r. r[Suc i := r ! i * x]) [0..<m] (A ! j)]"
  by (induction m) (simp_all add: set_entry_def)

lemma row_fold_length:
  "length (fold (\<lambda>i r. r[Suc i := r ! i * x]) [0..<m] r) = length r"
  by (induction m) simp_all

lemma row_fold_nth:
  "m < length r \<Longrightarrow> r ! 0 = 1 \<Longrightarrow> k < length r \<Longrightarrow>
   fold (\<lambda>i r. r[Suc i := r ! i * (x::real)]) [0..<m] r ! k = (if k \<le> m then x ^ k else r ! k)"
proof (induction m arbitrary: k)
  case 0
  then show ?case by simp
next
  case (Suc m)
  let ?r' = "fold (\<lambda>i r. r[Suc i := r ! i * x]) [0..<m] r"
  have at_m: "?r' ! m = x ^ m" using Suc.IH[of m] Suc.prems by simp
  have other: "?r' ! k = (if k \<le> m then x ^ k else r ! k)" using Suc.IH[of k] Suc.prems by simp
  show ?case
  proof (cases "k = Suc m")
    case True
    then show ?thesis using Suc.prems at_m by (simp add: row_fold_length)
  next
    case False
    then show ?thesis using other by simp
  qed
qed

lemma row_powers:
  assumes "length r = order + 1" and "r ! 0 = 1"
  shows "fold (\<lambda>i r. r[Suc i := r ! i * (x::real)]) [0..<order] r = map (\<lambda>k. x ^ k) [0..<order + 1]"
proof (rule nth_equalityI)
  show "length (fold (\<lambda>i r. r[Suc i := r ! i * x]) [0..<order] r) = length (map (\<lambda>k. x ^ k) [0..<order + 1])"
    using assms by (simp add: row_fold_length)
next
  fix k assume "k < length (fold (\<lambda>i r. r[Suc i := r ! i * x]) [0..<order] r)"
  then have k: "k < order + 1" using assms by (simp add: row_fold_length)
  then have "fold (\<lambda>i r. r[Suc i := r ! i * x]) [0..<order] r ! k = x ^ k"
    using row_fold_nth[of order r k x] assms by simp
  also have "x ^ k = map (\<lambda>k. x ^ k) [0..<order + 1] ! k"
    using k nth_map_upt[of k "order + 1" 0 "\<lambda>k. x ^ k"] by simp
  finally show "fold (\<lambda>i r. r[Suc i := r ! i * x]) [0..<order] r ! k = map (\<lambda>k. x ^ k) [0..<order + 1] ! k" .
qed

lemma rows_fold_length:
  "length (fold (\<lambda>j A. A[j := h j A]) [0..<n] A) = length A"
  by (induction n) simp_all

lemma rows_fold_nth:
  "n \<le> length A \<Longrightarrow> k < length A \<Longrightarrow>
   fold (\<lambda>j A. A[j := g j (A ! j)]) [0..<n] A ! k = (if k < n then g k (A ! k) else A ! k)"
proof (induction n arbitrary: k)
  case 0
  then show ?case by simp
next
  case (Suc n)
  let ?A' = "fold (\<lambda>j A. A[j := g j (A ! j)]) [0..<n] A"
  have at_n: "?A' ! n = A ! n" using Suc.IH[of n] Suc.prems by simp
  have other: "?A' ! k = (if k < n then g k (A ! k) else A ! k)" using Suc.IH[of k] Suc.prems by simp
  show ?case
  proof (cases "k = n")
    case True
    then show ?thesis using Suc.prems at_n by (simp add: rows_fold_length)
  next
    case False
    then show ?thesis using other by simp
  qed
qed

lemma rows_fold_map:
  "n = length A \<Longrightarrow> fold (\<lambda>j A. A[j := g j (A ! j)]) [0..<n] A = map (\<lambda>j. g j (A ! j)) [0..<n]"
  by (rule nth_equalityI) (simp_all add: rows_fold_length rows_fold_nth)

lemma fill_A_vandermonde:
  assumes len: "length A0 = length xvals" and rows: "\<And>j. j < length A0 \<Longrightarrow> length (A0 ! j) = order + 1"
  shows "fill_A A0 xvals order = map (\<lambda>x. map (\<lambda>k. x ^ k) [0..<order + 1]) xvals"
proof -
  let ?n = "length xvals"
  let ?A1 = "map (\<lambda>j. (A0 ! j)[0 := 1::real]) [0..<?n]"
  have "fold (\<lambda>i A. A[i := (A ! i)[0 := 1]]) [0..<?n] A0 = ?A1"
    using len by (intro rows_fold_map) simp
  then have first: "fold (\<lambda>i A. set_entry A i 0 1.0) [0..<?n] A0 = ?A1"
    by (simp add: set_entry_def)
  let ?g = "\<lambda>j r. fold (\<lambda>i r. r[Suc i := r ! i * xvals ! j]) [0..<order] r"
  have second: "fold (\<lambda>j A. fold (\<lambda>i A. set_entry A j (Suc i) (A ! j ! i * xvals ! j)) [0..<order] A) [0..<n] A
      = fold (\<lambda>j A. A[j := ?g j (A ! j)]) [0..<n] A" if "n \<le> length A" for n and A :: matrix
    using that
  proof (induction n)
    case 0
    then show ?case by simp
  next
    case (Suc n)
    let ?B = "fold (\<lambda>j A. A[j := ?g j (A ! j)]) [0..<n] A"
    have IH: "fold (\<lambda>j A. fold (\<lambda>i A. set_entry A j (Suc i) (A ! j ! i * xvals ! j)) [0..<order] A) [0..<n] A = ?B"
      using Suc by simp
    have "n < length ?B" using Suc.prems by (simp add: rows_fold_length)
    then have "fold (\<lambda>i A. set_entry A n (Suc i) (A ! n ! i * xvals ! n)) [0..<order] ?B
        = ?B[n := ?g n (?B ! n)]"
      by (rule inner_row)
    then show ?case using IH by simp
  qed
  have "fill_A A0 xvals order = fold (\<lambda>j A. A[j := ?g j (A ! j)]) [0..<?n] ?A1"
    unfolding fill_A_def Let_def Suc_eq_plus1[symmetric] first by (rule second) simp
  also have "\<dots> = map (\<lambda>j. ?g j (?A1 ! j)) [0..<?n]"
    by (rule rows_fold_map) simp
  also have "\<dots> = map (\<lambda>x. map (\<lambda>k. x ^ k) [0..<order + 1]) xvals"
  proof (rule nth_equalityI)
    show "length (map (\<lambda>j. ?g j (?A1 ! j)) [0..<?n]) = length (map (\<lambda>x. map (\<lambda>k. x ^ k) [0..<order + 1]) xvals)"
      by simp
  next
    fix j assume "j < length (map (\<lambda>j. ?g j (?A1 ! j)) [0..<?n])"
    then have j: "j < ?n" by simp
    then have "length ((A0 ! j)[0 := 1]) = order + 1" using rows[of j] len by simp
    moreover have "(A0 ! j)[0 := 1] ! 0 = 1" using rows[of j] len j by simp
    ultimately have "?g j ((A0 ! j)[0 := 1]) = map (\<lambda>k. (xvals ! j) ^ k) [0..<order + 1]"
      by (rule row_powers)
    then show "map (\<lambda>j. ?g j (?A1 ! j)) [0..<?n] ! j = map (\<lambda>x. map (\<lambda>k. x ^ k) [0..<order + 1]) xvals ! j"
      using j by simp
  qed
  finally show ?thesis .
qed

lemma polyfit_A_vandermonde:
  "polyfit_A xvals order = map (\<lambda>x. map (\<lambda>k. x ^ k) [0..<order + 1]) xvals"
  unfolding polyfit_A_def by (rule fill_A_vandermonde) simp_all

lemma vandermonde_times:
  assumes "length c = order + 1"
  shows "mat_vec (polyfit_A xvals order) c = map (polyeval c) xvals"
proof -
  have "(\<Sum>k<length c. map (\<lambda>k. x ^ k) [0..<order + 1] ! k * c ! k) = polyeval c x" for x :: real
  proof -
    have "(\<Sum>k<length c. map (\<lambda>k. x ^ k) [0..<order + 1] ! k * c ! k) = (\<Sum>k<length c. c ! k * x ^ k)"
    proof (rule sum.cong)
      fix k assume "k \<in> {..<length c}"
      then have "k < order + 1" using assms by simp
      then have "map (\<lambda>k. x ^ k) [0..<order + 1] ! k = x ^ k"
        using nth_map_upt[of k "order + 1" 0 "\<lambda>k. x ^ k"] by simp
      then show "map (\<lambda>k. x ^ k) [0..<order + 1] ! k * c ! k = c ! k * x ^ k" by simp
    qed simp
    then show ?thesis by (simp add: polyeval_sum)
  qed
  then show ?thesis by (simp add: mat_vec_def polyfit_A_vandermonde)
qed

lemma residual_is_sq_error:
  assumes "length c = order + 1" and "length xvals = length yvals"
  shows "sq_residual (polyfit_A xvals order) c yvals = sq_error c xvals yvals"
  unfolding sq_residual_def sq_error_def vandermonde_times[OF assms(1)]
  using assms(2) by (intro sum.cong) simp_all

section \<open>The solver returns a least-squares solution\<close>

text \<open>
  The coefficients that \<open>lsq_columns\<close> returns satisfy the normal equations: what is left
  of \<open>y\<close> is orthogonal to every column. Such coefficients have the least sum of squares.
\<close>

lemma fitted_Nil: "fitted [] cs i = 0"
  by (simp add: fitted_def)

lemma fitted_Cons: "fitted (a # as) (c # cs) i = c * a ! i + fitted as cs i"
  by (simp add: fitted_def sum.lessThan_Suc_shift del: sum.lessThan_Suc)

lemma remove_component_nth:
  "i < n \<Longrightarrow> remove_component n a b ! i = b ! i - dot n b a / dot n a a * a ! i"
  by (simp add: remove_component_def)

lemma dot_remove_component:
  assumes "dot n a a \<noteq> 0"
  shows "dot n (remove_component n a b) a = 0"
proof -
  have "dot n (remove_component n a b) a
      = (\<Sum>i<n. b ! i * a ! i - dot n b a / dot n a a * (a ! i * a ! i))"
    unfolding dot_def [of n "remove_component n a b"]
    by (intro sum.cong) (simp_all add: remove_component_nth algebra_simps)
  also have "\<dots> = dot n b a - dot n b a / dot n a a * dot n a a"
    by (simp add: sum_subtractf sum_distrib_left dot_def)
  also have "\<dots> = 0" using assms by simp
  finally show ?thesis .
qed

lemma dot_zero_nth:
  assumes "dot n a a = 0" and "i < n"
  shows "a ! i = 0"
proof -
  have "(\<Sum>i<n. a ! i * a ! i) = 0" using assms(1) by (simp add: dot_def)
  then have "\<forall>i\<in>{..<n}. a ! i * a ! i = 0"
    by (subst (asm) sum_nonneg_eq_0_iff) simp_all
  then show ?thesis using assms(2) by simp
qed

lemma lsq_columns_length: "length (lsq_columns n as y) = length as"
  by (induction n as y rule: lsq_columns.induct) (simp_all add: Let_def)

lemma fitted_removed:
  assumes "i < n"
  shows "fitted (map (remove_component n a) as) cs i
       = fitted as cs i - (\<Sum>j<length as. cs ! j * dot n (as ! j) a) / dot n a a * a ! i"
proof -
  have "fitted (map (remove_component n a) as) cs i
      = (\<Sum>j<length as. (cs ! j * as ! j ! i - cs ! j * dot n (as ! j) a / dot n a a * a ! i))"
    unfolding fitted_def using assms
    by (simp add: remove_component_nth algebra_simps)
  also have "\<dots> = (\<Sum>j<length as. cs ! j * as ! j ! i)
      - (\<Sum>j<length as. cs ! j * dot n (as ! j) a / dot n a a * a ! i)"
    by (rule sum_subtractf)
  also have "(\<Sum>j<length as. cs ! j * dot n (as ! j) a / dot n a a * a ! i)
      = (\<Sum>j<length as. cs ! j * dot n (as ! j) a) / dot n a a * a ! i"
    by (simp add: sum_distrib_right sum_divide_distrib)
  finally show ?thesis by (simp add: fitted_def)
qed

lemma fitted_orthogonal:
  assumes "\<And>j. j < length as \<Longrightarrow> dot n (as ! j) a = 0"
  shows "(\<Sum>i<n. fitted as cs i * a ! i) = 0"
proof -
  have "(\<Sum>i<n. fitted as cs i * a ! i) = (\<Sum>i<n. \<Sum>j<length as. cs ! j * (as ! j ! i * a ! i))"
    by (simp add: fitted_def sum_distrib_right mult.assoc)
  also have "\<dots> = (\<Sum>j<length as. \<Sum>i<n. cs ! j * (as ! j ! i * a ! i))"
    by (rule sum.swap)
  also have "\<dots> = (\<Sum>j<length as. cs ! j * dot n (as ! j) a)"
    by (simp add: dot_def sum_distrib_left)
  also have "\<dots> = 0"
    using assms by simp
  finally show ?thesis .
qed

lemma lsq_columns_normal:
  "k < length as \<Longrightarrow> (\<Sum>i<n. (y ! i - fitted as (lsq_columns n as y) i) * as ! k ! i) = 0"
proof (induction n as y arbitrary: k rule: lsq_columns.induct)
  case (1 n y)
  then show ?case by simp
next
  case (2 n a as y)
  show ?case
  proof (cases "dot n a a = 0")
    case True
    then have a0: "a ! i = 0" if "i < n" for i
      using that by (rule dot_zero_nth)
    have sol: "lsq_columns n (a # as) y = 0 # lsq_columns n as y"
      using True by simp
    show ?thesis
    proof (cases k)
      case 0
      then show ?thesis by (simp add: a0 del: lsq_columns.simps)
    next
      case (Suc k')
      then have "k' < length as" using "2.prems" by simp
      from "2.IH"(1) [OF True this] show ?thesis
        using Suc by (simp add: sol fitted_Cons del: lsq_columns.simps)
    qed
  next
    case False
    let ?d = "dot n a a"
    let ?as' = "map (remove_component n a) as"
    let ?y' = "remove_component n a y"
    let ?cs = "lsq_columns n ?as' ?y'"
    let ?S = "\<Sum>j<length as. ?cs ! j * dot n (as ! j) a"
    let ?c0 = "(dot n y a - ?S) / ?d"
    have sol: "lsq_columns n (a # as) y = ?c0 # ?cs"
      using False by (simp add: Let_def)
    define r where "r i = y ! i - fitted (a # as) (?c0 # ?cs) i" for i
    have r_eq: "r i = ?y' ! i - fitted ?as' ?cs i" if "i < n" for i
    proof -
      have "?y' ! i - fitted ?as' ?cs i
          = y ! i - dot n y a / ?d * a ! i - (fitted as ?cs i - ?S / ?d * a ! i)"
        using that by (simp add: remove_component_nth fitted_removed)
      also have "\<dots> = y ! i - (?c0 * a ! i + fitted as ?cs i)"
        by (simp add: algebra_simps diff_divide_distrib)
      finally show ?thesis by (simp add: r_def fitted_Cons)
    qed
    have IH: "(\<Sum>i<n. (?y' ! i - fitted ?as' ?cs i) * ?as' ! j ! i) = 0" if "j < length as" for j
      using "2.IH"(2) [OF False, of j] that by simp
    have r_a: "(\<Sum>i<n. r i * a ! i) = 0"
    proof -
      have "(\<Sum>i<n. r i * a ! i) = (\<Sum>i<n. ?y' ! i * a ! i - fitted ?as' ?cs i * a ! i)"
        by (intro sum.cong) (simp_all add: r_eq algebra_simps)
      also have "\<dots> = dot n ?y' a - (\<Sum>i<n. fitted ?as' ?cs i * a ! i)"
        by (simp add: sum_subtractf dot_def)
      also have "dot n ?y' a = 0"
        using False by (rule dot_remove_component)
      also have "(\<Sum>i<n. fitted ?as' ?cs i * a ! i) = 0"
        by (rule fitted_orthogonal) (simp add: dot_remove_component [OF False])
      finally show ?thesis by simp
    qed
    have r_col: "(\<Sum>i<n. r i * as ! j ! i) = 0" if j: "j < length as" for j
    proof -
      let ?t = "dot n (as ! j) a / ?d"
      have "(\<Sum>i<n. r i * as ! j ! i) = (\<Sum>i<n. r i * ?as' ! j ! i + ?t * (r i * a ! i))"
        using j by (intro sum.cong) (simp_all add: remove_component_nth algebra_simps)
      also have "\<dots> = (\<Sum>i<n. r i * ?as' ! j ! i) + ?t * (\<Sum>i<n. r i * a ! i)"
        by (simp add: sum.distrib sum_distrib_left)
      also have "(\<Sum>i<n. r i * ?as' ! j ! i) = (\<Sum>i<n. (?y' ! i - fitted ?as' ?cs i) * ?as' ! j ! i)"
        by (intro sum.cong) (simp_all add: r_eq)
      finally show ?thesis using IH [OF j] r_a by simp
    qed
    show ?thesis
    proof (cases k)
      case 0
      then show ?thesis using r_a by (simp add: sol r_def del: lsq_columns.simps)
    next
      case (Suc k')
      then have "k' < length as" using "2.prems" by simp
      then show ?thesis using r_col [of k'] Suc by (simp add: sol r_def del: lsq_columns.simps)
    qed
  qed
qed

lemma normal_equations_least:
  assumes "\<And>k. k < length as \<Longrightarrow> (\<Sum>i<n. (y ! i - fitted as cs i) * as ! k ! i) = 0"
  shows "(\<Sum>i<n. (fitted as cs i - y ! i)\<^sup>2) \<le> (\<Sum>i<n. (fitted as cs' i - y ! i)\<^sup>2)"
proof -
  define r where "r i = y ! i - fitted as cs i" for i
  define e where "e i = fitted as cs' i - fitted as cs i" for i
  have e_sum: "e i = (\<Sum>j<length as. (cs' ! j - cs ! j) * as ! j ! i)" for i
    by (simp add: e_def fitted_def sum_subtractf algebra_simps)
  have "(\<Sum>i<n. r i * e i) = (\<Sum>i<n. \<Sum>j<length as. (cs' ! j - cs ! j) * (r i * as ! j ! i))"
    by (simp add: e_sum sum_distrib_left mult_ac)
  also have "\<dots> = (\<Sum>j<length as. \<Sum>i<n. (cs' ! j - cs ! j) * (r i * as ! j ! i))"
    by (rule sum.swap)
  also have "\<dots> = (\<Sum>j<length as. (cs' ! j - cs ! j) * (\<Sum>i<n. r i * as ! j ! i))"
    by (simp add: sum_distrib_left)
  also have "\<dots> = 0"
    using assms by (simp add: r_def)
  finally have cross: "(\<Sum>i<n. r i * e i) = 0" .
  have "(\<Sum>i<n. (fitted as cs' i - y ! i)\<^sup>2) = (\<Sum>i<n. (r i)\<^sup>2 - 2 * (r i * e i) + (e i)\<^sup>2)"
    by (intro sum.cong) (simp_all add: r_def e_def power2_eq_square algebra_simps)
  also have "\<dots> = (\<Sum>i<n. (r i)\<^sup>2) - 2 * (\<Sum>i<n. r i * e i) + (\<Sum>i<n. (e i)\<^sup>2)"
    by (simp add: sum.distrib sum_subtractf sum_distrib_left)
  also have "\<dots> = (\<Sum>i<n. (r i)\<^sup>2) + (\<Sum>i<n. (e i)\<^sup>2)"
    using cross by simp
  finally have "(\<Sum>i<n. (r i)\<^sup>2) \<le> (\<Sum>i<n. (fitted as cs' i - y ! i)\<^sup>2)"
    by (simp add: sum_nonneg)
  moreover have "(\<Sum>i<n. (r i)\<^sup>2) = (\<Sum>i<n. (fitted as cs i - y ! i)\<^sup>2)"
    by (intro sum.cong) (simp_all add: r_def power2_commute)
  ultimately show ?thesis by simp
qed

lemma lsq_columns_least:
  "(\<Sum>i<n. (fitted as (lsq_columns n as y) i - y ! i)\<^sup>2) \<le> (\<Sum>i<n. (fitted as cs' i - y ! i)\<^sup>2)"
  by (rule normal_equations_least) (rule lsq_columns_normal)

lemma columns_eq:
  "A \<noteq> [] \<Longrightarrow> columns A = map (\<lambda>j. map (\<lambda>row. row ! j) A) [0..<length (hd A)]"
  by (cases A) (simp_all add: columns_def)

lemma columns_length:
  "A \<noteq> [] \<Longrightarrow> length (columns A) = length (hd A)"
  by (simp add: columns_eq)

lemma columns_nth:
  "A \<noteq> [] \<Longrightarrow> j < length (hd A) \<Longrightarrow> i < length A \<Longrightarrow> columns A ! j ! i = A ! i ! j"
  by (simp add: columns_eq)

lemma fitted_columns:
  assumes "A \<noteq> []" and "length c = length (hd A)" and "i < length A"
  shows "fitted (columns A) c i = mat_vec A c ! i"
proof -
  have "fitted (columns A) c i = (\<Sum>j<length c. c ! j * A ! i ! j)"
    unfolding fitted_def columns_length [OF assms(1)] assms(2) [symmetric]
    using assms by (intro sum.cong) (simp_all add: columns_nth)
  then show ?thesis using assms(3) by (simp add: mat_vec_def mult.commute)
qed

lemma sq_residual_columns:
  assumes "A \<noteq> []" and "length c = length (hd A)" and "length y = length A"
  shows "sq_residual A c y = (\<Sum>i<length A. (fitted (columns A) c i - y ! i)\<^sup>2)"
  unfolding sq_residual_def assms(3)
  by (intro sum.cong) (simp_all add: fitted_columns [OF assms(1,2)])

lemma householderQr_solve_length:
  "A \<noteq> [] \<Longrightarrow> length (householderQr_solve A y) = length (hd A)"
  by (simp add: householderQr_solve_def lsq_columns_length columns_length)

lemma householderQr_solve_least:
  assumes "A \<noteq> []" and "length c = length (hd A)" and "length y = length A"
  shows "sq_residual A (householderQr_solve A y) y \<le> sq_residual A c y"
proof -
  have "sq_residual A (householderQr_solve A y) y
      = (\<Sum>i<length A. (fitted (columns A) (householderQr_solve A y) i - y ! i)\<^sup>2)"
    using assms(1) householderQr_solve_length [OF assms(1)] assms(3) by (rule sq_residual_columns)
  also have "\<dots> \<le> (\<Sum>i<length A. (fitted (columns A) c i - y ! i)\<^sup>2)"
    unfolding householderQr_solve_def by (rule lsq_columns_least)
  also have "\<dots> = sq_residual A c y"
    using assms by (rule sq_residual_columns [symmetric])
  finally show ?thesis .
qed

lemma householderQr_solve_example:
  "householderQr_solve [[1, 0], [1, 1], [1, 2]] [1, 1, 1] = [1, 0]"
  by (simp add: householderQr_solve_def columns_def dot_def remove_component_def lessThan_Suc
      numeral_3_eq_3 numeral_2_eq_2 upt_rec Let_def)

section \<open>The loops of the handler\<close>

lemma push_back_loop:
  "fold (\<lambda>i (xs, ys). (xs @ [f i], ys @ [g i])) [0..<n] (xs0, ys0)
     = (xs0 @ map f [0..<n], ys0 @ map g [0..<n])"
  by (induction n) simp_all

lemma map_nth_shift: "k + n \<le> length xs \<Longrightarrow> map (\<lambda>i. xs ! (i + k)) [0..<n] = take n (drop k xs)"
  by (rule nth_equalityI) (simp_all add: add.commute)

lemma unpack_solution_split:
  assumes "length solution = 2 + 2 * N"
  shows "unpack_solution solution =
           Inr (- (solution ! 0 / deg2rad 25), solution ! 1,
                take N (drop 2 solution), take N (drop (2 + N) solution))"
proof -
  have N: "(length solution - 2) div 2 = N" using assms by simp
  have x: "map (\<lambda>i. solution ! (i + 2)) [0..<N] = take N (drop 2 solution)"
    using assms by (intro map_nth_shift) simp
  have y: "map (\<lambda>i. solution ! (i + 2 + N)) [0..<N] = take N (drop (2 + N) solution)"
    using assms map_nth_shift[of "2 + N" N solution] by (simp add: add.assoc)
  have loop: "fold (\<lambda>i (xs, ys). (xs @ [solution ! (i + 2)], ys @ [solution ! (i + 2 + N)])) [0..<N] ([], [])
      = (take N (drop 2 solution), take N (drop (2 + N) solution))"
    unfolding push_back_loop x y by simp
  have "\<not> length solution < 2" using assms by simp
  then show ?thesis
    unfolding unpack_solution_def Let_def N loop by simp
qed

lemma to_car_loop:
  assumes "n \<le> length ptsx" and "length ptsx = length ptsy"
  shows "fold (\<lambda>i acc.
             case acc of
               Inl e \<Rightarrow> Inl e
             | Inr (ptsx_cc, ptsy_cc) \<Rightarrow>
                 if i < length ptsy
                 then Inr (ptsx_cc[i := fst (car_coords p (ptsx ! i) (ptsy ! i))],
                           ptsy_cc[i := snd (car_coords p (ptsx ! i) (ptsy ! i))])
                 else Inl OutOfBounds)
       [0..<n] (Inr (xs0, ys0))
     = Inr (fold (\<lambda>i xs. xs[i := fst (car_coords p (ptsx ! i) (ptsy ! i))]) [0..<n] xs0,
            fold (\<lambda>i ys. ys[i := snd (car_coords p (ptsx ! i) (ptsy ! i))]) [0..<n] ys0)"
  using assms by (induction n) simp_all

lemma write_loop_length: "length (fold (\<lambda>i xs. xs[i := h i]) [0..<n] xs0) = length xs0"
  by (induction n) simp_all

lemma write_loop_nth:
  "k < length xs0 \<Longrightarrow>
   fold (\<lambda>i xs. xs[i := h i]) [0..<n] xs0 ! k = (if k < n then h k else xs0 ! k)"
  by (induction n) (auto simp: nth_list_update write_loop_length less_Suc_eq)

lemma write_loop_map:
  "length xs0 = n \<Longrightarrow> fold (\<lambda>i xs. xs[i := h i]) [0..<n] xs0 = map h [0..<n]"
  by (rule nth_equalityI) (simp_all add: write_loop_length write_loop_nth)

lemma to_car_equal_sizes:
  assumes "length ptsx = length ptsy"
  shows "to_car p ptsx ptsy =
           Inr (map (\<lambda>i. fst (car_coords p (ptsx ! i) (ptsy ! i))) [0..<length ptsx],
                map (\<lambda>i. snd (car_coords p (ptsx ! i) (ptsy ! i))) [0..<length ptsx])"
  unfolding to_car_def using assms
  by (simp add: to_car_loop write_loop_map)

section \<open>Facts about the handler\<close>

lemma solver_input_Inr:
  "solver_input qr_solve tel = Inr (state, coeffs, xs, ys) \<longleftrightarrow>
     to_car (predict (j_x tel) (j_y tel) (j_psi tel) (j_speed tel * 0.44704)
               (j_steering_angle tel) (j_throttle tel)) (j_ptsx tel) (j_ptsy tel) = Inr (xs, ys)
     \<and> polyfit qr_solve xs ys 3 = Inr coeffs
     \<and> 1 < length coeffs
     \<and> state = [0, 0, 0,
           v_pred (predict (j_x tel) (j_y tel) (j_psi tel) (j_speed tel * 0.44704)
                    (j_steering_angle tel) (j_throttle tel)),
           cte coeffs, - arctan (coeffs ! 1)]"
  unfolding solver_input_def Let_def epsi_def
  by (auto split: sum.splits prod.splits if_splits)

lemma polyfit_too_few:
  "int (length xvals) < order + 1 \<Longrightarrow> polyfit qr_solve xvals yvals order = Inl AssertionFailed"
  by (simp add: polyfit_def)

lemma polyfit_enough:
  "1 \<le> order \<Longrightarrow> order + 1 \<le> int (length xvals) \<Longrightarrow> length xvals = length yvals \<Longrightarrow>
   polyfit qr_solve xvals yvals order =
     Inr (qr_solve (map (\<lambda>x. map (\<lambda>k. x ^ k) [0..<nat order + 1]) xvals) yvals)"
  by (simp add: polyfit_def polyfit_A_vandermonde)

lemma car_coords_origin: "car_coords p (px_pred p) (py_pred p) = (0, 0)"
  by (simp add: car_coords_def)

lemma car_coords_heading:
  "car_coords p (px_pred p + cos (psi_pred p)) (py_pred p + sin (psi_pred p)) = (1, 0)"
proof -
  have "cos (psi_pred p) * cos (psi_pred p) + sin (psi_pred p) * sin (psi_pred p) = 1"
    using sin_cos_squared_add2 [of "psi_pred p"] by (simp add: power2_eq_square)
  then show ?thesis by (simp add: car_coords_def)
qed

lemma to_car_example: "to_car (predict 0 0 0 10 0 0) [1, 2, 3] [1, 1, 1] = Inr ([0, 1, 2], [1, 1, 1])"
  by (simp add: to_car_equal_sizes car_coords_def predict_def latency_def Lf_def)

lemma example_system:
  "mat_vec [[1, 0], [1, 1], [1, 2]] [a, b] = [1, 1, 1] \<longleftrightarrow> a = 1 \<and> b = 0"
  by (auto simp: mat_vec_def lessThan_Suc numeral_2_eq_2)

lemma example_sq_error: "sq_error [1, 0] [0, 1, 2] [1, 1, 1] = 0"
  by (simp add: sq_error_def polyeval_Cons lessThan_Suc numeral_3_eq_3 polyeval_def)

lemma example_no_fit:
  "solver_input qr_solve \<lparr>j_ptsx = [1, 2, 3], j_ptsy = [1, 1, 1], j_x = 0, j_y = 0, j_psi = 0,
       j_speed = 10 / 0.44704, j_steering_angle = 0, j_throttle = 0\<rparr> = Inl AssertionFailed"
  by (simp add: solver_input_def to_car_example polyfit_too_few)

lemma example_no_fit_mph:
  "solver_input qr_solve \<lparr>j_ptsx = [1, 2, 3], j_ptsy = [1, 1, 1], j_x = 0, j_y = 0, j_psi = 0,
       j_speed = 10, j_steering_angle = 0, j_throttle = 0\<rparr> = Inl AssertionFailed"
  by (simp add: solver_input_def to_car_equal_sizes polyfit_too_few)

lemma on_telemetry_solver:
  assumes "solver_input qr_solve tel = Inr (state, coeffs, ptsx_cc, ptsy_cc)"
    and "mpc_solve state coeffs = mpc_solve' state coeffs"
  shows "on_telemetry qr_solve mpc_solve tel = on_telemetry qr_solve mpc_solve' tel"
  unfolding on_telemetry_def using assms by simp

lemma on_telemetry_Inr:
  assumes "solver_input qr_solve tel = Inr (state, coeffs, ptsx_cc, ptsy_cc)"
    and "unpack_solution (mpc_solve state coeffs) = Inr (sv, tv, xs, ys)"
  shows "on_telemetry qr_solve mpc_solve tel =
           Inr \<lparr> msg_steering_angle = sv, msg_throttle = tv, msg_mpc_x = xs, msg_mpc_y = ys,
                 msg_next_x = map (\<lambda>i. ptsx_cc ! i) [0..<length ptsx_cc],
                 msg_next_y = map (\<lambda>i. ptsy_cc ! i) [0..<length ptsx_cc] \<rparr>"
  unfolding on_telemetry_def using assms by (simp add: push_back_loop)

lemma unpack_solution_Cons:
  "\<exists>xs ys. unpack_solution (steer # accel # rest) = Inr (- (steer / deg2rad 25), accel, xs, ys)"
  by (simp add: unpack_solution_def Let_def split: prod.splits)

lemma run_solver_input:
  "solver_input (\<lambda>A y. [0, 0, 0, 0])
     \<lparr>j_ptsx = [1, 2, 3, 4], j_ptsy = [0, 0, 0, 0], j_x = 0, j_y = 0, j_psi = 0,
      j_speed = 10, j_steering_angle = 0, j_throttle = 1\<rparr>
   = Inr ([0, 0, 0, 5.4514, 0, 0], [0, 0, 0, 0],
          [0.55296, 1.55296, 2.55296, 3.55296], [0, 0, 0, 0])"
  by (simp add: solver_input_Inr to_car_equal_sizes car_coords_def predict_def latency_def Lf_def
      polyfit_def cte_def polyeval_Cons)

lemma Lf_pos: "0 < Lf"
  by (simp add: Lf_def)

lemma latency_pos: "0 < latency"
  by (simp add: latency_def)

lemma to_car_lengths:
  "length ptsx = length ptsy \<Longrightarrow>
   \<exists>xs ys. to_car p ptsx ptsy = Inr (xs, ys) \<and> length xs = length ptsx \<and> length ys = length ptsy"
  by (simp add: to_car_equal_sizes)

lemma to_car_nth:
  assumes "length ptsx = length ptsy" and "i < length ptsx"
  shows "\<exists>xs ys. to_car p ptsx ptsy = Inr (xs, ys)
           \<and> (xs ! i, ys ! i) = car_coords p (ptsx ! i) (ptsy ! i)"
  using assms by (simp add: to_car_equal_sizes)

lemma solver_input_total:
  assumes "length (j_ptsx tel) = length (j_ptsy tel)" and "4 \<le> length (j_ptsx tel)"
    and "\<And>A y. 2 \<le> length (qr_solve A y)"
  shows "\<exists>state coeffs xs ys. solver_input qr_solve tel = Inr (state, coeffs, xs, ys)"
proof -
  let ?p = "predict (j_x tel) (j_y tel) (j_psi tel) (j_speed tel * 0.44704)
               (j_steering_angle tel) (j_throttle tel)"
  obtain xs ys where c: "to_car ?p (j_ptsx tel) (j_ptsy tel) = Inr (xs, ys)"
    and lx: "length xs = length (j_ptsx tel)" and ly: "length ys = length (j_ptsy tel)"
    using to_car_lengths [OF assms(1), of ?p] by blast
  have "polyfit qr_solve xs ys 3 =
          Inr (qr_solve (map (\<lambda>x. map (\<lambda>k. x ^ k) [0..<nat 3 + 1]) xs) ys)"
    using assms(1,2) lx ly by (intro polyfit_enough) simp_all
  moreover have "1 < length (qr_solve (map (\<lambda>x. map (\<lambda>k. x ^ k) [0..<nat 3 + 1]) xs) ys)"
    using assms(3) [of "map (\<lambda>x. map (\<lambda>k. x ^ k) [0..<nat 3 + 1]) xs" ys] by simp
  ultimately show ?thesis using c by (simp add: solver_input_Inr)
qed

lemma sq_residual_nonneg: "0 \<le> sq_residual A c y"
  by (simp add: sq_residual_def sum_nonneg)

lemma vandermonde_shape:
  "xvals \<noteq> [] \<Longrightarrow>
   map (\<lambda>x. map (\<lambda>k. x ^ k) [0..<m]) xvals \<noteq> []
   \<and> length (hd (map (\<lambda>x. map (\<lambda>k. x ^ k) [0..<m]) xvals)) = m
   \<and> length (map (\<lambda>x. map (\<lambda>k. (x::real) ^ k) [0..<m]) xvals) = length xvals"
  by (cases xvals) simp_all

lemma polyfit_householderQr:
  assumes "1 \<le> order" and "order + 1 \<le> int (length xvals)" and "length xvals = length yvals"
  shows "\<exists>c. polyfit householderQr_solve xvals yvals order = Inr c
           \<and> length c = nat order + 1
           \<and> (\<forall>c'. length c' = nat order + 1 \<longrightarrow>
                 sq_error c xvals yvals \<le> sq_error c' xvals yvals)"
proof -
  let ?V = "map (\<lambda>x. map (\<lambda>k. x ^ k) [0..<nat order + 1]) xvals"
  let ?c = "householderQr_solve ?V yvals"
  have ne: "xvals \<noteq> []" using assms(1,2) by auto
  note shape = vandermonde_shape [OF ne, of "nat order + 1"]
  have V: "polyfit_A xvals (nat order) = ?V" by (rule polyfit_A_vandermonde)
  have fit: "polyfit householderQr_solve xvals yvals order = Inr ?c"
    using assms by (rule polyfit_enough)
  have len: "length ?c = nat order + 1"
    using householderQr_solve_length [of ?V yvals] shape by simp
  have least: "sq_error ?c xvals yvals \<le> sq_error c' xvals yvals"
    if c': "length c' = nat order + 1" for c'
  proof -
    have "sq_residual ?V ?c yvals \<le> sq_residual ?V c' yvals"
      using shape c' assms(3) by (intro householderQr_solve_least) simp_all
    then show ?thesis
      using residual_is_sq_error [OF len assms(3)] residual_is_sq_error [OF c' assms(3)] V
      by (simp only:)
  qed
  show ?thesis using fit len least by blast
qed

lemma residual_zero_solves:
  assumes "sq_residual A c y = 0" and "length (mat_vec A c) = length y"
  shows "mat_vec A c = y"
proof (rule nth_equalityI)
  show "length (mat_vec A c) = length y" by (rule assms(2))
next
  fix i assume "i < length (mat_vec A c)"
  then have i: "i \<in> {..<length y}" using assms(2) by simp
  have "\<forall>i\<in>{..<length y}. (mat_vec A c ! i - y ! i)\<^sup>2 = 0"
    using assms(1) unfolding sq_residual_def
    by (subst (asm) sum_nonneg_eq_0_iff) simp_all
  then show "mat_vec A c ! i = y ! i" using i by simp
qed

lemma example_least_squares_unique:
  assumes "length c = 2"
    and "\<forall>c'. length c' = 2 \<longrightarrow>
           sq_residual [[1, 0], [1, 1], [1, 2]] c [1, 1, 1]
             \<le> sq_residual [[1, 0], [1, 1], [1, 2]] c' [1, 1, 1]"
  shows "c = [1, 0]"
proof -
  let ?V = "[[1, 0], [1, 1], [1, 2 :: real]]"
  have zero: "sq_residual ?V [1, 0] [1, 1, 1] = 0"
    by (simp add: sq_residual_def mat_vec_def lessThan_Suc numeral_3_eq_3 numeral_2_eq_2)
  have "sq_residual ?V c [1, 1, 1] \<le> 0"
    using assms(2) zero by (metis length_Cons list.size(3) one_add_one Suc_eq_plus1 numeral_2_eq_2)
  then have "sq_residual ?V c [1, 1, 1] = 0"
    using sq_residual_nonneg [of ?V c "[1, 1, 1]"] by simp
  then have solves: "mat_vec ?V c = [1, 1, 1]"
    by (rule residual_zero_solves) (simp add: mat_vec_def)
  obtain a b where c: "c = [a, b]"
    using assms(1) by (metis length_0_conv length_Suc_conv numeral_2_eq_2)
  show ?thesis using solves example_system [of a b] unfolding c by simp
qed

section \<open>The arithmetic is defined\<close>

lemma predict_defined_total:
  "predict_defined px py psi v steering throttle = Some (predict px py psi v steering throttle)"
  by (simp add: predict_defined_def predict_def d_add_def d_sub_def d_mul_def d_div_def d_cos_def
      d_sin_def d_lift1_def d_lift2_def Lf_def)

lemma car_coords_defined_total:
  "car_coords_defined p wx wy = Some (car_coords p wx wy)"
  by (simp add: car_coords_defined_def car_coords_def d_add_def d_sub_def d_mul_def d_neg_def
      d_cos_def d_sin_def d_lift1_def d_lift2_def Let_def)

lemma polyeval_defined_step:
  "d_add (Some r) (d_mul (Some c) (d_pow (Some x) (int i))) = Some (r + c * x ^ i)"
  by (simp add: d_add_def d_mul_def d_pow_def d_lift1_def d_lift2_def)

lemma polyeval_defined_loop:
  "fold (\<lambda>i result. d_add result (d_mul (Some (coeffs ! i)) (d_pow (Some x) (int i)))) [0..<n] (Some a)
     = Some (fold (\<lambda>i result. result + coeffs ! i * x ^ i) [0..<n] a)"
  by (induction n) (simp_all add: polyeval_defined_step)

lemma polyeval_defined_total: "polyeval_defined coeffs x = Some (polyeval coeffs x)"
  by (simp add: polyeval_defined_def polyeval_def polyeval_defined_loop)

lemma epsi_defined_total:
  "2 \<le> length coeffs \<Longrightarrow> epsi_defined coeffs = Some (- arctan (coeffs ! 1))"
  by (simp add: epsi_defined_def d_neg_def d_atan_def d_lift1_def)

lemma undefined_operations:
  "d_div (Some a) (Some 0) = None \<and> d_pow (Some 0) (- 1) = None
   \<and> d_add None b = None \<and> d_add b None = None \<and> d_mul None b = None \<and> d_mul b None = None
   \<and> d_sub None b = None \<and> d_sub b None = None"
  by (simp add: d_div_def d_pow_def d_add_def d_mul_def d_sub_def d_lift1_def d_lift2_def
      split: option.splits)


section \<open>The claims\<close>

text \<open>
  C1. The prediction after the latency: for every pose \<open>(px, py, psi)\<close>, speed \<open>v\<close>
  (in m/s), steering and throttle, the predicted x is \<open>px + v cos psi \<Delta>t\<close>, the predicted y
  is \<open>py + v sin psi \<Delta>t\<close>, the predicted heading is \<open>psi - (v / Lf) steering \<Delta>t\<close> and the
  predicted speed is \<open>v + throttle g \<Delta>t\<close>, with the program's \<open>\<Delta>t = 0.1\<close>, \<open>Lf = 2.67\<close>
  and \<open>g = 9.81\<close>. Driving forwards, a positive steering makes the heading smaller.
\<close>

theorem predict_kinematics:
  "px_pred (predict px py psi v steering throttle) = px + v * cos psi * latency
   \<and> py_pred (predict px py psi v steering throttle) = py + v * sin psi * latency
   \<and> psi_pred (predict px py psi v steering throttle) = psi - (v / Lf) * steering * latency
   \<and> v_pred (predict px py psi v steering throttle) = v + throttle * 9.81 * latency
   \<and> latency = 0.1 \<and> Lf = 2.67
   \<and> (0 < v \<and> 0 < steering \<longrightarrow> psi_pred (predict px py psi v steering throttle) < psi)"
proof -
  have "0 < v / Lf * latency * steering" if "0 < v" "0 < steering"
    using that Lf_pos latency_pos by simp
  then show ?thesis
    by (auto simp: predict_def latency_def Lf_def)
qed

theorem predict_kinematics_witness:
  "(0::real) < 10 \<and> (0::real) < 1 \<and> psi_pred (predict 0 0 0 10 1 0) < 0
   \<and> px_pred (predict 0 0 0 10 1 0) = 1 \<and> v_pred (predict 0 0 0 10 1 0) = 10"
  using predict_kinematics [of 0 0 0 10 1 0] by (simp add: latency_def)

text \<open>
  C3. The cross track error is \<^verbatim>\<open>polyeval(coeffs, 0)\<close>, and for every coefficient vector
  with a first entry this is that entry: every higher power of 0 is 0 and \<open>0\<^sup>0 = 1\<close>.
\<close>

theorem cte_constant_coefficient:
  "cte (c0 # cs) = polyeval (c0 # cs) 0 \<and> polyeval (c0 # cs) 0 = c0"
  by (simp add: cte_def polyeval_Cons)

text \<open>
  C4. For every coefficient vector with at least two entries, the orientation error is
  the negative arc tangent of the entry of index 1.
\<close>

theorem epsi_arctan:
  "2 \<le> length c \<Longrightarrow> epsi c = Inr (- arctan (c ! 1))"
  by (simp add: epsi_def)

theorem epsi_arctan_witness:
  "2 \<le> length [3, 1, 0, 0 :: real] \<and> epsi [3, 1, 0, 0] = Inr (- (pi / 4))"
  using epsi_arctan [of "[3, 1, 0, 0]"] by (simp add: arctan_one)

text \<open>
  C6. A solution of length \<open>2 + 2N\<close> is split into the steering from element 0 (divided
  by \<^verbatim>\<open>deg2rad(25)\<close> and negated), the throttle from element 1, and \<open>N\<close> pairs: the
  x values are the elements \<open>2 .. 2 + N - 1\<close>, the y values the elements
  \<open>2 + N .. 2 + 2N - 1\<close>, paired by index.
\<close>

theorem split_roundtrip:
  assumes "length solution = 2 + 2 * N"
  shows "\<exists>sv tv xs ys.
           unpack_solution solution = Inr (sv, tv, xs, ys)
           \<and> sv = - (solution ! 0 / deg2rad 25) \<and> tv = solution ! 1
           \<and> length xs = N \<and> length ys = N
           \<and> xs = take N (drop 2 solution) \<and> ys = take N (drop (2 + N) solution)
           \<and> (\<forall>i<N. xs ! i = solution ! (2 + i) \<and> ys ! i = solution ! (2 + N + i))"
  using assms by (simp add: unpack_solution_split)

theorem split_roundtrip_witness:
  "length [4, 5, 1, 2, 3, 6, 7, 8 :: real] = 2 + 2 * 3
   \<and> (\<exists>sv tv. unpack_solution [4, 5, 1, 2, 3, 6, 7, 8] = Inr (sv, tv, [1, 2, 3], [6, 7, 8]))"
  using split_roundtrip [of "[4, 5, 1, 2, 3, 6, 7, 8]" 3] by auto

text \<open>
  C7. The steering sent is the solver's steering divided by \<^verbatim>\<open>deg2rad(25)\<close>, the
  largest steering angle, and negated; the throttle sent is the solver's throttle.
  Nothing is clamped: a steering beyond 25 degrees is sent as a value beyond 1, in
  \<^verbatim>\<open>unpack_solution\<close> and in the message of the handler.
\<close>

theorem actuation_normalised:
  "(\<exists>xs ys. unpack_solution (steer # accel # rest) = Inr (- (steer / deg2rad 25), accel, xs, ys))
   \<and> deg2rad 25 = 25 * pi / 180
   \<and> (deg2rad 25 < \<bar>steer\<bar> \<longrightarrow> 1 < \<bar>- (steer / deg2rad 25)\<bar>)
   \<and> (solver_input qr_solve tel = Inr (state, coeffs, ptsx_cc, ptsy_cc)
        \<and> mpc_solve state coeffs = steer # accel # rest \<longrightarrow>
          (\<exists>m. on_telemetry qr_solve mpc_solve tel = Inr m
             \<and> msg_steering_angle m = - (steer / deg2rad 25) \<and> msg_throttle m = accel))"
proof -
  have pos: "0 < deg2rad 25" by (simp add: deg2rad_def)
  have a: "1 < \<bar>- (steer / deg2rad 25)\<bar>" if "deg2rad 25 < \<bar>steer\<bar>"
  proof -
    have "1 < \<bar>steer\<bar> / deg2rad 25" using that pos by (simp add: less_divide_eq)
    then show ?thesis using pos by (simp add: abs_divide del: divide_less_eq_1 less_divide_eq_1)
  qed
  have b: "\<exists>m. on_telemetry qr_solve mpc_solve tel = Inr m
             \<and> msg_steering_angle m = - (steer / deg2rad 25) \<and> msg_throttle m = accel"
    if s: "solver_input qr_solve tel = Inr (state, coeffs, ptsx_cc, ptsy_cc)"
      and m: "mpc_solve state coeffs = steer # accel # rest"
  proof -
    obtain xs ys where
      "unpack_solution (mpc_solve state coeffs) = Inr (- (steer / deg2rad 25), accel, xs, ys)"
      using unpack_solution_Cons [of steer accel rest] m by auto
    with s show ?thesis
      using on_telemetry_Inr [of qr_solve tel state coeffs ptsx_cc ptsy_cc mpc_solve] by simp
  qed
  show ?thesis using a b unpack_solution_Cons [of steer accel rest] by (simp add: deg2rad_def)
qed

theorem actuation_normalised_witness:
  "deg2rad 25 < \<bar>pi\<bar> \<and> 1 < \<bar>- (pi / deg2rad 25)\<bar>
   \<and> (\<exists>m. on_telemetry (\<lambda>A y. [0, 0, 0, 0]) (\<lambda>state coeffs. [pi, 7])
          \<lparr>j_ptsx = [1, 2, 3, 4], j_ptsy = [0, 0, 0, 0], j_x = 0, j_y = 0, j_psi = 0,
           j_speed = 10, j_steering_angle = 0, j_throttle = 1\<rparr> = Inr m
        \<and> msg_steering_angle m = - (pi / deg2rad 25) \<and> msg_throttle m = 7)"
proof -
  have "deg2rad 25 < \<bar>pi\<bar>" by (simp add: deg2rad_def)
  then show ?thesis
    using actuation_normalised [of pi 7 "[]" "\<lambda>A y. [0, 0, 0, 0]" _ _ _ _ _ "\<lambda>state coeffs. [pi, 7]"]
      run_solver_input
    by blast
qed

text \<open>
  C2. The conversion to the car's coordinate system sends the predicted position to
  \<open>(0, 0)\<close> and the point one unit ahead of it in the predicted heading to \<open>(1, 0)\<close>, so
  the predicted heading becomes the direction of the local x axis, angle 0. A waypoint
  that lies on the predicted position comes out of the loop as \<open>(0, 0)\<close>, and the state
  handed to the solver starts with x = 0, y = 0 and psi = 0.
\<close>

theorem frame_invariance:
  "car_coords p (px_pred p) (py_pred p) = (0, 0)
   \<and> car_coords p (px_pred p + cos (psi_pred p)) (py_pred p + sin (psi_pred p)) = (1, 0)
   \<and> (length ptsx = length ptsy \<and> i < length ptsx \<and> ptsx ! i = px_pred p \<and> ptsy ! i = py_pred p
        \<longrightarrow> (\<exists>xs ys. to_car p ptsx ptsy = Inr (xs, ys) \<and> xs ! i = 0 \<and> ys ! i = 0))
   \<and> (solver_input qr_solve tel = Inr (state, coeffs, ptsx_cc, ptsy_cc)
        \<longrightarrow> take 3 state = [0, 0, 0])"
proof -
  have "\<exists>xs ys. to_car p ptsx ptsy = Inr (xs, ys) \<and> xs ! i = 0 \<and> ys ! i = 0"
    if "length ptsx = length ptsy" "i < length ptsx" "ptsx ! i = px_pred p" "ptsy ! i = py_pred p"
    using to_car_nth [of ptsx ptsy i p] that by (auto simp: car_coords_origin)
  moreover have "take 3 state = [0, 0, 0]"
    if "solver_input qr_solve tel = Inr (state, coeffs, ptsx_cc, ptsy_cc)"
    using that by (simp add: solver_input_Inr)
  ultimately show ?thesis
    using car_coords_origin [of p] car_coords_heading [of p] by blast
qed

theorem frame_invariance_witness:
  "length [1, 2, 3 :: real] = length [0, 1, 1 :: real] \<and> (0::nat) < length [1, 2, 3 :: real]
   \<and> [1, 2, 3] ! 0 = px_pred (predict 0 0 0 10 0 0) \<and> [0, 1, 1] ! 0 = py_pred (predict 0 0 0 10 0 0)
   \<and> (\<exists>xs ys. to_car (predict 0 0 0 10 0 0) [1, 2, 3] [0, 1, 1] = Inr (xs, ys) \<and> xs ! 0 = 0 \<and> ys ! 0 = 0)
   \<and> (\<exists>state coeffs ptsx_cc ptsy_cc.
         solver_input (\<lambda>A y. [0, 0, 0, 0])
           \<lparr>j_ptsx = [1, 2, 3, 4], j_ptsy = [0, 0, 0, 0], j_x = 0, j_y = 0, j_psi = 0,
            j_speed = 10, j_steering_angle = 0, j_throttle = 1\<rparr>
           = Inr (state, coeffs, ptsx_cc, ptsy_cc) \<and> take 3 state = [0, 0, 0])"
proof -
  have a: "[1, 2, 3 :: real] ! 0 = px_pred (predict 0 0 0 10 0 0)"
    and b: "[0, 1, 1 :: real] ! 0 = py_pred (predict 0 0 0 10 0 0)"
    by (simp_all add: predict_def latency_def)
  show ?thesis
    using a b run_solver_input
      frame_invariance [of "predict 0 0 0 10 0 0" "[1, 2, 3]" "[0, 1, 1]" 0 "\<lambda>A y. [0, 0, 0, 0]"
        "\<lparr>j_ptsx = [1, 2, 3, 4], j_ptsy = [0, 0, 0, 0], j_x = 0, j_y = 0, j_psi = 0,
            j_speed = 10, j_steering_angle = 0, j_throttle = 1\<rparr>"
        "[0, 0, 0, 5.4514, 0, 0]" "[0, 0, 0, 0]" "[0.55296, 1.55296, 2.55296, 3.55296]" "[0, 0, 0, 0]"]
    by simp
qed

text \<open>
  C5, as the program has it. With fewer than \<open>order + 1\<close> points \<^verbatim>\<open>polyfit\<close> stops at
  its \<^verbatim>\<open>assert\<close>: the process aborts, no error value reaches the caller and no fit of
  a lower order is tried. The next theorem is an instance: three points, order 3.
\<close>

theorem polyfit_underdetermined_counterexample:
  "\<forall>qr_solve. polyfit qr_solve [0, 1, 2] [1, 1, 1] 3 = Inl AssertionFailed"
  by (simp add: polyfit_def)

text \<open>
  C5, amended. For every order and every \<^verbatim>\<open>xvals\<close> with fewer than \<open>order + 1\<close>
  entries \<^verbatim>\<open>polyfit\<close> fails its assertion, whatever the solver. With \<open>order \<ge> 1\<close>, at
  least \<open>order + 1\<close> points and as many \<^verbatim>\<open>yvals\<close> as \<^verbatim>\<open>xvals\<close> it returns what the
  solver returns for the Vandermonde matrix \<open>V\<close> of \<^verbatim>\<open>xvals\<close> and the right-hand side
  \<^verbatim>\<open>yvals\<close>, and with the QR solver these are least-squares coefficients: \<open>order + 1\<close>
  of them, and no polynomial with \<open>order + 1\<close> coefficients has a smaller sum of the
  squared differences to \<^verbatim>\<open>yvals\<close> at the points \<^verbatim>\<open>xvals\<close>. The system itself is the
  one of the fit: \<open>V c\<close> is the polynomial \<open>c\<close> at the points \<^verbatim>\<open>xvals\<close>, so that every
  solver that minimises the residual of the system makes \<^verbatim>\<open>polyfit\<close> return
  least-squares coefficients.
\<close>

theorem polyfit_guard_and_fit:
  "(int (length xvals) < order + 1 \<longrightarrow> polyfit qr_solve xvals yvals order = Inl AssertionFailed)
   \<and> (1 \<le> order \<and> order + 1 \<le> int (length xvals) \<and> length xvals = length yvals \<longrightarrow>
        (let V = map (\<lambda>x. map (\<lambda>k. x ^ k) [0..<nat order + 1]) xvals
         in polyfit qr_solve xvals yvals order = Inr (qr_solve V yvals)
            \<and> (\<exists>c. polyfit householderQr_solve xvals yvals order = Inr c
                  \<and> c = householderQr_solve V yvals
                  \<and> length c = nat order + 1
                  \<and> (\<forall>c'. length c' = nat order + 1 \<longrightarrow>
                        sq_error c xvals yvals \<le> sq_error c' xvals yvals))
            \<and> (\<forall>c. length c = nat order + 1 \<longrightarrow>
                  mat_vec V c = map (polyeval c) xvals
                  \<and> sq_residual V c yvals = sq_error c xvals yvals)
            \<and> (length (qr_solve V yvals) = nat order + 1
                \<and> (\<forall>c. length c = nat order + 1 \<longrightarrow>
                      sq_residual V (qr_solve V yvals) yvals \<le> sq_residual V c yvals)
                \<longrightarrow> (\<forall>c. length c = nat order + 1 \<longrightarrow>
                      sq_error (qr_solve V yvals) xvals yvals \<le> sq_error c xvals yvals))))"
proof -
  let ?V = "map (\<lambda>x. map (\<lambda>k. x ^ k) [0..<nat order + 1]) xvals"
  have V: "polyfit_A xvals (nat order) = ?V" by (rule polyfit_A_vandermonde)
  have few: "polyfit qr_solve xvals yvals order = Inl AssertionFailed"
    if "int (length xvals) < order + 1"
    using that by (rule polyfit_too_few)
  have fit: "polyfit qr_solve xvals yvals order = Inr (qr_solve ?V yvals)"
    if "1 \<le> order" "order + 1 \<le> int (length xvals)" "length xvals = length yvals"
    using that by (rule polyfit_enough)
  have qr: "\<exists>c. polyfit householderQr_solve xvals yvals order = Inr c
                  \<and> c = householderQr_solve ?V yvals
                  \<and> length c = nat order + 1
                  \<and> (\<forall>c'. length c' = nat order + 1 \<longrightarrow>
                        sq_error c xvals yvals \<le> sq_error c' xvals yvals)"
    if h: "1 \<le> order" "order + 1 \<le> int (length xvals)" "length xvals = length yvals"
  proof -
    from polyfit_householderQr [OF h] obtain c where
      c: "polyfit householderQr_solve xvals yvals order = Inr c" "length c = nat order + 1"
        "\<forall>c'. length c' = nat order + 1 \<longrightarrow> sq_error c xvals yvals \<le> sq_error c' xvals yvals"
      by blast
    moreover have "polyfit householderQr_solve xvals yvals order = Inr (householderQr_solve ?V yvals)"
      using h by (rule polyfit_enough)
    ultimately show ?thesis by simp
  qed
  have sys: "mat_vec ?V c = map (polyeval c) xvals" if "length c = nat order + 1" for c
    using vandermonde_times [OF that, of xvals] V by simp
  have res: "sq_residual ?V c yvals = sq_error c xvals yvals"
    if "length c = nat order + 1" "length xvals = length yvals" for c
    using residual_is_sq_error [OF that] V by simp
  have best: "sq_error (qr_solve ?V yvals) xvals yvals \<le> sq_error c xvals yvals"
    if "length xvals = length yvals" "length (qr_solve ?V yvals) = nat order + 1"
      "\<forall>c. length c = nat order + 1 \<longrightarrow>
         sq_residual ?V (qr_solve ?V yvals) yvals \<le> sq_residual ?V c yvals"
      "length c = nat order + 1" for c
  proof -
    from that(3,4) have "sq_residual ?V (qr_solve ?V yvals) yvals \<le> sq_residual ?V c yvals"
      by blast
    then show ?thesis
      using res [OF that(4) that(1)] res [OF that(2) that(1)] by (simp only:)
  qed
  show ?thesis
    unfolding Let_def using few fit qr sys res best by blast
qed

theorem polyfit_guard_and_fit_witness:
  "int (length [0, 1, 2 :: real]) < 3 + 1
   \<and> polyfit householderQr_solve [0, 1, 2] [1, 1, 1] 3 = Inl AssertionFailed
   \<and> (1::int) \<le> 1 \<and> 1 + 1 \<le> int (length [0, 1, 2 :: real])
   \<and> length [0, 1, 2 :: real] = length [1, 1, 1 :: real]
   \<and> polyfit householderQr_solve [0, 1, 2] [1, 1, 1] 1 = Inr [1, 0]
   \<and> length [5, 7 :: real] = nat 1 + 1
   \<and> sq_error [1, 0] [0, 1, 2] [1, 1, 1] \<le> sq_error [5, 7] [0, 1, 2] [1, 1, 1]
   \<and> mat_vec [[1, 0], [1, 1], [1, 2]] [5, 7] = map (polyeval [5, 7]) [0, 1, 2]"
proof -
  let ?V = "[[1, 0], [1, 1], [1, 2 :: real]]"
  have V: "map (\<lambda>x. map (\<lambda>k. x ^ k) [0..<nat 1 + 1]) [0, 1, 2 :: real] = ?V"
    by (simp add: upt_rec)
  have h1: "int (length [0, 1, 2 :: real]) < 3 + 1"
    and h2: "(1::int) \<le> 1 \<and> 1 + 1 \<le> int (length [0, 1, 2 :: real])
             \<and> length [0, 1, 2 :: real] = length [1, 1, 1 :: real]"
    and h4: "length [5, 7 :: real] = nat 1 + 1"
    by simp_all
  from polyfit_guard_and_fit [of "[0, 1, 2]" 3 householderQr_solve "[1, 1, 1]"] h1
  have a: "polyfit householderQr_solve [0, 1, 2] [1, 1, 1] 3 = Inl AssertionFailed" by blast
  from polyfit_guard_and_fit [of "[0, 1, 2]" 1 householderQr_solve "[1, 1, 1]"] h2
  have b: "(\<exists>c. polyfit householderQr_solve [0, 1, 2] [1, 1, 1] 1 = Inr c
                  \<and> c = householderQr_solve ?V [1, 1, 1]
                  \<and> length c = nat 1 + 1
                  \<and> (\<forall>c'. length c' = nat 1 + 1 \<longrightarrow>
                        sq_error c [0, 1, 2] [1, 1, 1] \<le> sq_error c' [0, 1, 2] [1, 1, 1]))
      \<and> (\<forall>c. length c = nat 1 + 1 \<longrightarrow> mat_vec ?V c = map (polyeval c) [0, 1, 2]
             \<and> sq_residual ?V c [1, 1, 1] = sq_error c [0, 1, 2] [1, 1, 1])"
    unfolding Let_def V by blast
  from b have c: "polyfit householderQr_solve [0, 1, 2] [1, 1, 1] 1 = Inr [1, 0]
      \<and> (\<forall>c'. length c' = nat 1 + 1 \<longrightarrow>
            sq_error [1, 0] [0, 1, 2] [1, 1, 1] \<le> sq_error c' [0, 1, 2] [1, 1, 1])"
    unfolding householderQr_solve_example by blast
  from c h4 have d: "sq_error [1, 0] [0, 1, 2] [1, 1, 1] \<le> sq_error [5, 7] [0, 1, 2] [1, 1, 1]"
    by blast
  from b h4 have e: "mat_vec ?V [5, 7] = map (polyeval [5, 7]) [0, 1, 2]" by blast
  show ?thesis using h1 h2 h4 a c d e by blast
qed

text \<open>
  C8, as the program has it. The handler always asks for a fit of order 3, which
  needs four waypoints: on the three waypoints of the example the assertion of
  \<^verbatim>\<open>polyfit\<close> fails and no error is computed, whatever the QR solver and the MPC
  solver are, with a telemetry speed that is 10 m/s after the conversion and with a
  telemetry speed of 10 as well.
\<close>

theorem example_cycle_counterexample:
  "\<forall>qr_solve mpc_solve.
     on_telemetry qr_solve mpc_solve
       \<lparr>j_ptsx = [1, 2, 3], j_ptsy = [1, 1, 1], j_x = 0, j_y = 0, j_psi = 0,
        j_speed = 10 / 0.44704, j_steering_angle = 0, j_throttle = 0\<rparr> = Inl AssertionFailed
     \<and> on_telemetry qr_solve mpc_solve
       \<lparr>j_ptsx = [1, 2, 3], j_ptsy = [1, 1, 1], j_x = 0, j_y = 0, j_psi = 0,
        j_speed = 10, j_steering_angle = 0, j_throttle = 0\<rparr> = Inl AssertionFailed"
  unfolding on_telemetry_def example_no_fit example_no_fit_mph by simp

text \<open>
  C8, amended. For the pose \<open>(0, 0, 0)\<close>, 10 m/s, steering 0 and throttle 0 the
  prediction is \<open>(1, 0, 0)\<close> with speed 10, and the waypoints \<open>(1,1), (2,1), (3,1)\<close> become
  \<open>x = [0, 1, 2]\<close>, \<open>y = [1, 1, 1]\<close>. The fit of order 3 of the handler fails its
  assertion on these three points. A fit of order 1 on them yields the coefficients
  \<open>[1, 0]\<close>, with the QR solver and with every solver that returns two coefficients of
  least squared residual for the matrix with the rows \<open>(1,0), (1,1), (1,2)\<close>; for the
  coefficients of this fit the cross track error is 1 and the orientation error is 0.
\<close>

theorem example_cycle:
  "predict 0 0 0 10 0 0 = \<lparr>px_pred = 1, py_pred = 0, psi_pred = 0, v_pred = 10\<rparr>
   \<and> to_car (predict 0 0 0 10 0 0) [1, 2, 3] [1, 1, 1] = Inr ([0, 1, 2], [1, 1, 1])
   \<and> polyfit qr_solve [0, 1, 2] [1, 1, 1] 3 = Inl AssertionFailed
   \<and> solver_input qr_solve
        \<lparr>j_ptsx = [1, 2, 3], j_ptsy = [1, 1, 1], j_x = 0, j_y = 0, j_psi = 0,
         j_speed = 10 / 0.44704, j_steering_angle = 0, j_throttle = 0\<rparr> = Inl AssertionFailed
   \<and> polyfit qr_solve [0, 1, 2] [1, 1, 1] 1 = Inr (qr_solve [[1, 0], [1, 1], [1, 2]] [1, 1, 1])
   \<and> (\<exists>coeffs. polyfit householderQr_solve [0, 1, 2] [1, 1, 1] 1 = Inr coeffs
          \<and> coeffs = [1, 0] \<and> cte coeffs = 1 \<and> epsi coeffs = Inr 0)
   \<and> (length (qr_solve [[1, 0], [1, 1], [1, 2]] [1, 1, 1]) = 2
        \<and> (\<forall>c. length c = 2 \<longrightarrow>
              sq_residual [[1, 0], [1, 1], [1, 2]] (qr_solve [[1, 0], [1, 1], [1, 2]] [1, 1, 1]) [1, 1, 1]
                \<le> sq_residual [[1, 0], [1, 1], [1, 2]] c [1, 1, 1])
        \<longrightarrow> (\<exists>coeffs. polyfit qr_solve [0, 1, 2] [1, 1, 1] 1 = Inr coeffs
               \<and> coeffs = [1, 0] \<and> cte coeffs = 1 \<and> epsi coeffs = Inr 0))
   \<and> (mat_vec [[1, 0], [1, 1], [1, 2]] [a, b] = [1, 1, 1] \<longleftrightarrow> a = 1 \<and> b = 0)
   \<and> sq_error [1, 0] [0, 1, 2] [1, 1, 1] = 0
   \<and> cte [1, 0] = 1 \<and> epsi [1, 0] = Inr 0"
proof -
  let ?V = "[[1, 0], [1, 1], [1, 2 :: real]]"
  have pred: "predict 0 0 0 10 0 0 = \<lparr>px_pred = 1, py_pred = 0, psi_pred = 0, v_pred = 10\<rparr>"
    by (simp add: predict_def latency_def Lf_def)
  have three: "polyfit qr_solve [0, 1, 2] [1, 1, 1] 3 = Inl AssertionFailed"
    by (simp add: polyfit_too_few)
  have one: "polyfit q [0, 1, 2] [1, 1, 1] 1 = Inr (q ?V [1, 1, 1])" for q
    by (simp add: polyfit_enough upt_rec)
  have c: "cte [1, 0] = 1" by (simp add: cte_def polyeval_Cons)
  have e: "epsi [1, 0] = Inr 0" by (simp add: epsi_def)
  have qr: "\<exists>coeffs. polyfit householderQr_solve [0, 1, 2] [1, 1, 1] 1 = Inr coeffs
          \<and> coeffs = [1, 0] \<and> cte coeffs = 1 \<and> epsi coeffs = Inr 0"
    using one [of householderQr_solve] c e by (simp add: householderQr_solve_example)
  have any: "\<exists>coeffs. polyfit qr_solve [0, 1, 2] [1, 1, 1] 1 = Inr coeffs
          \<and> coeffs = [1, 0] \<and> cte coeffs = 1 \<and> epsi coeffs = Inr 0"
    if "length (qr_solve ?V [1, 1, 1]) = 2"
      and "\<forall>c. length c = 2 \<longrightarrow>
              sq_residual ?V (qr_solve ?V [1, 1, 1]) [1, 1, 1] \<le> sq_residual ?V c [1, 1, 1]"
  proof -
    have "qr_solve ?V [1, 1, 1] = [1, 0]"
      using that by (rule example_least_squares_unique)
    then show ?thesis using one [of qr_solve] c e by simp
  qed
  show ?thesis
    using pred three one [of qr_solve] qr any c e
      to_car_example example_no_fit [of qr_solve] example_system [of a b] example_sq_error
    by blast
qed

theorem example_cycle_witness:
  "length (householderQr_solve [[1, 0], [1, 1], [1, 2]] [1, 1, 1]) = 2
   \<and> sq_residual [[1, 0], [1, 1], [1, 2]] (householderQr_solve [[1, 0], [1, 1], [1, 2]] [1, 1, 1]) [1, 1, 1]
        \<le> sq_residual [[1, 0], [1, 1], [1, 2]] [5, 7] [1, 1, 1]
   \<and> (\<exists>coeffs. polyfit householderQr_solve [0, 1, 2] [1, 1, 1] 1 = Inr coeffs
          \<and> coeffs = [1, 0] \<and> cte coeffs = 1 \<and> epsi coeffs = Inr 0)"
proof -
  let ?V = "[[1, 0], [1, 1], [1, 2 :: real]]"
  have len: "length (householderQr_solve ?V [1, 1, 1]) = 2"
    using householderQr_solve_length [of ?V "[1, 1, 1]"] by simp
  have least: "\<forall>c. length c = 2 \<longrightarrow>
      sq_residual ?V (householderQr_solve ?V [1, 1, 1]) [1, 1, 1] \<le> sq_residual ?V c [1, 1, 1]"
    using householderQr_solve_least [of ?V _ "[1, 1, 1]"] by simp
  have five: "sq_residual ?V (householderQr_solve ?V [1, 1, 1]) [1, 1, 1]
      \<le> sq_residual ?V [5, 7] [1, 1, 1]"
    using least by simp
  note t = example_cycle [of householderQr_solve 0 0]
  have "\<exists>coeffs. polyfit householderQr_solve [0, 1, 2] [1, 1, 1] 1 = Inr coeffs
          \<and> coeffs = [1, 0] \<and> cte coeffs = 1 \<and> epsi coeffs = Inr 0"
    using t len least by blast
  then show ?thesis using len five by blast
qed

text \<open>
  C9. No step of the prediction, of the conversion of the waypoints or of the two
  errors is undefined for any real input. With every operator of the source read as an
  operation that is undefined outside its domain (a division by 0 is, and so is all that
  is computed from it), the prediction, the conversion of a waypoint, \<^verbatim>\<open>polyeval\<close>
  at every \<open>x\<close> (also at 0, where \<^verbatim>\<open>pow(0, 0)\<close> is 1) and the cross track error are
  defined for all reals and are what the handler computes; the orientation error is, for
  every coefficient vector with two entries. The only divisor is the constant \<open>Lf\<close>, which
  is not 0; at speed 0 the prediction is the pose itself, and a straight reference line
  (the coefficients of the second and third power are 0) has its errors like any other.
  The loop of the conversion returns for all waypoints with as many x as y values, so the
  handler reaches the solver whenever it has at least four waypoints and the fit returns
  at least two coefficients.
\<close>

theorem arithmetic_total:
  "predict_defined px py psi v steering throttle = Some (predict px py psi v steering throttle)
   \<and> car_coords_defined p wx wy = Some (car_coords p wx wy)
   \<and> polyeval_defined coeffs x = Some (polyeval coeffs x)
   \<and> cte_defined coeffs = Some (cte coeffs)
   \<and> (2 \<le> length coeffs \<longrightarrow> epsi_defined coeffs = Some (- arctan (coeffs ! 1)))
   \<and> d_div (Some v) (Some 0) = None \<and> d_pow (Some 0) (- 1) = None
   \<and> d_add None (Some v) = None \<and> d_sub None (Some v) = None \<and> d_mul None (Some v) = None
   \<and> Lf \<noteq> 0
   \<and> predict px py psi 0 steering throttle
       = \<lparr>px_pred = px, py_pred = py, psi_pred = psi, v_pred = throttle * 9.81 * latency\<rparr>
   \<and> (length ptsx = length ptsy \<longrightarrow>
        (\<exists>xs ys. to_car p ptsx ptsy = Inr (xs, ys)
           \<and> length xs = length ptsx \<and> length ys = length ptsy))
   \<and> (2 \<le> length coeffs \<longrightarrow> (\<exists>e. epsi coeffs = Inr e))
   \<and> cte [c0, c1, 0, 0] = c0 \<and> epsi [c0, c1, 0, 0] = Inr (- arctan c1)
   \<and> (length (j_ptsx tel) = length (j_ptsy tel) \<and> 4 \<le> length (j_ptsx tel)
        \<and> (\<forall>A y. 2 \<le> length (qr_solve A y)) \<longrightarrow>
        (\<exists>state cs xs ys. solver_input qr_solve tel = Inr (state, cs, xs, ys)))"
proof -
  have "Lf \<noteq> 0" by (simp add: Lf_def)
  moreover have "predict px py psi 0 steering throttle
       = \<lparr>px_pred = px, py_pred = py, psi_pred = psi, v_pred = throttle * 9.81 * latency\<rparr>"
    by (simp add: predict_def)
  moreover have "2 \<le> length coeffs \<longrightarrow> (\<exists>e. epsi coeffs = Inr e)"
    by (simp add: epsi_def)
  moreover have "cte [c0, c1, 0, 0] = c0" and "epsi [c0, c1, 0, 0] = Inr (- arctan c1)"
    by (simp_all add: cte_def polyeval_Cons epsi_def)
  moreover have "cte_defined coeffs = Some (cte coeffs)"
    by (simp add: cte_defined_def cte_def polyeval_defined_total)
  moreover have "2 \<le> length coeffs \<longrightarrow> epsi_defined coeffs = Some (- arctan (coeffs ! 1))"
    by (simp add: epsi_defined_total)
  moreover note predict_defined_total [of px py psi v steering throttle]
    car_coords_defined_total [of p wx wy] polyeval_defined_total [of coeffs x]
    undefined_operations [of v "Some v"]
  ultimately show ?thesis
    using to_car_lengths [of ptsx ptsy p] solver_input_total [of tel qr_solve] by blast
qed

theorem arithmetic_total_witness:
  "length [1, 2, 3, 4 :: real] = length [0, 0, 0, 0 :: real] \<and> 4 \<le> length [1, 2, 3, 4 :: real]
   \<and> 2 \<le> length [0, 0, 0, 0 :: real]
   \<and> (\<exists>xs ys. to_car (predict 0 0 0 0 0 0) [1, 2, 3, 4] [0, 0, 0, 0] = Inr (xs, ys))
   \<and> (\<exists>e. epsi [0, 0, 0, 0] = Inr e)
   \<and> epsi_defined [0, 0, 0, 0] = Some 0
   \<and> predict_defined 0 0 0 0 0 0 = Some \<lparr>px_pred = 0, py_pred = 0, psi_pred = 0, v_pred = 0\<rparr>
   \<and> (\<exists>state cs xs ys.
         solver_input (\<lambda>A y. [0, 0, 0, 0])
           \<lparr>j_ptsx = [1, 2, 3, 4], j_ptsy = [0, 0, 0, 0], j_x = 0, j_y = 0, j_psi = 0,
            j_speed = 0, j_steering_angle = 0, j_throttle = 0\<rparr> = Inr (state, cs, xs, ys))"
proof -
  let ?tel = "\<lparr>j_ptsx = [1, 2, 3, 4], j_ptsy = [0, 0, 0, 0], j_x = 0, j_y = 0, j_psi = 0,
            j_speed = 0, j_steering_angle = 0, j_throttle = 0\<rparr>"
  have h1: "length [1, 2, 3, 4 :: real] = length [0, 0, 0, 0 :: real]"
    and h2: "4 \<le> length [1, 2, 3, 4 :: real]"
    and h3: "2 \<le> length [0, 0, 0, 0 :: real]"
    by simp_all
  have h4: "length (j_ptsx ?tel) = length (j_ptsy ?tel) \<and> 4 \<le> length (j_ptsx ?tel)
      \<and> (\<forall>(A::matrix) (y::vec). 2 \<le> length [0, 0, 0, 0 :: real])"
    by simp
  have p0: "predict 0 0 0 0 0 0 = \<lparr>px_pred = 0, py_pred = 0, psi_pred = 0, v_pred = 0\<rparr>"
    by (simp add: predict_def)
  have e0: "- arctan ([0, 0, 0, 0 :: real] ! 1) = 0"
    by simp
  note t = arithmetic_total [of 0 0 0 0 0 0 "predict 0 0 0 0 0 0" 0 0 "[0, 0, 0, 0]" 0
        "[1, 2, 3, 4]" "[0, 0, 0, 0]" 0 0 ?tel "\<lambda>A y. [0, 0, 0, 0]"]
  have a: "predict_defined 0 0 0 0 0 0 = Some \<lparr>px_pred = 0, py_pred = 0, psi_pred = 0, v_pred = 0\<rparr>"
    using t [THEN conjunct1] by (simp only: p0)
  have b: "epsi_defined [0, 0, 0, 0] = Some 0"
    using t h3 e0 by (metis (no_types, lifting))
  show ?thesis
    using h1 h2 h3 h4 a b t by blast
qed

text \<open>
  C10. Whenever the handler reaches the solver, the converted waypoints are those
  relative to the pose predicted with \<open>v = 0.44704 \<sqdot> speed\<close>, and the speed in the state is
  \<open>v + throttle \<sqdot> 9.81 \<sqdot> 0.1\<close> for the same \<open>v\<close>: the speed of the telemetry is used only
  after the conversion to m/s. This state and the coefficients of the fit are all that
  the handler hands to the solver: two solvers that agree on them give the same message.
\<close>

theorem speed_converted:
  "solver_input qr_solve tel = Inr (state, coeffs, ptsx_cc, ptsy_cc) \<Longrightarrow>
     (let v = 0.44704 * j_speed tel;
          p = \<lparr> px_pred = j_x tel + v * cos (j_psi tel) * 0.1,
                py_pred = j_y tel + v * sin (j_psi tel) * 0.1,
                psi_pred = j_psi tel - v / 2.67 * 0.1 * j_steering_angle tel,
                v_pred = v + j_throttle tel * 9.81 * 0.1 \<rparr>
      in to_car p (j_ptsx tel) (j_ptsy tel) = Inr (ptsx_cc, ptsy_cc)
         \<and> polyfit qr_solve ptsx_cc ptsy_cc 3 = Inr coeffs
         \<and> state = [0, 0, 0, v + j_throttle tel * 9.81 * 0.1, polyeval coeffs 0, - arctan (coeffs ! 1)]
         \<and> (\<forall>mpc_solve mpc_solve'.
               mpc_solve state coeffs = mpc_solve' state coeffs \<longrightarrow>
               on_telemetry qr_solve mpc_solve tel = on_telemetry qr_solve mpc_solve' tel))"
proof -
  assume s: "solver_input qr_solve tel = Inr (state, coeffs, ptsx_cc, ptsy_cc)"
  have same: "\<forall>mpc_solve mpc_solve'.
               mpc_solve state coeffs = mpc_solve' state coeffs \<longrightarrow>
               on_telemetry qr_solve mpc_solve tel = on_telemetry qr_solve mpc_solve' tel"
    using s by (blast intro: on_telemetry_solver)
  have "(let v = 0.44704 * j_speed tel;
          p = \<lparr> px_pred = j_x tel + v * cos (j_psi tel) * 0.1,
                py_pred = j_y tel + v * sin (j_psi tel) * 0.1,
                psi_pred = j_psi tel - v / 2.67 * 0.1 * j_steering_angle tel,
                v_pred = v + j_throttle tel * 9.81 * 0.1 \<rparr>
      in to_car p (j_ptsx tel) (j_ptsy tel) = Inr (ptsx_cc, ptsy_cc)
         \<and> polyfit qr_solve ptsx_cc ptsy_cc 3 = Inr coeffs
         \<and> state = [0, 0, 0, v + j_throttle tel * 9.81 * 0.1, polyeval coeffs 0, - arctan (coeffs ! 1)])"
    using s by (simp add: solver_input_Inr predict_def latency_def Lf_def cte_def Let_def mult.commute)
  with same show ?thesis
    unfolding Let_def by blast
qed

theorem speed_converted_witness:
  "solver_input (\<lambda>A y. [0, 0, 0, 0])
     \<lparr>j_ptsx = [1, 2, 3, 4], j_ptsy = [0, 0, 0, 0], j_x = 0, j_y = 0, j_psi = 0,
      j_speed = 10, j_steering_angle = 0, j_throttle = 1\<rparr>
   = Inr ([0, 0, 0, 5.4514, 0, 0], [0, 0, 0, 0], [0.55296, 1.55296, 2.55296, 3.55296], [0, 0, 0, 0])
   \<and> to_car \<lparr>px_pred = 4.4704 * 0.1, py_pred = 0, psi_pred = 0, v_pred = 4.4704 + 0.981\<rparr>
        [1, 2, 3, 4] [0, 0, 0, 0] = Inr ([0.55296, 1.55296, 2.55296, 3.55296], [0, 0, 0, 0])
   \<and> on_telemetry (\<lambda>A y. [0, 0, 0, 0]) (\<lambda>state coeffs. [0, 0])
         \<lparr>j_ptsx = [1, 2, 3, 4], j_ptsy = [0, 0, 0, 0], j_x = 0, j_y = 0, j_psi = 0,
          j_speed = 10, j_steering_angle = 0, j_throttle = 1\<rparr>
       = on_telemetry (\<lambda>A y. [0, 0, 0, 0]) (\<lambda>state coeffs. [0, state ! 0])
         \<lparr>j_ptsx = [1, 2, 3, 4], j_ptsy = [0, 0, 0, 0], j_x = 0, j_y = 0, j_psi = 0,
          j_speed = 10, j_steering_angle = 0, j_throttle = 1\<rparr>"
proof -
  let ?tel = "\<lparr>j_ptsx = [1, 2, 3, 4], j_ptsy = [0, 0, 0, 0], j_x = 0, j_y = 0, j_psi = 0,
      j_speed = 10, j_steering_angle = 0, j_throttle = 1\<rparr>"
  let ?qr = "\<lambda>(A::matrix) (y::vec). [0, 0, 0, 0 :: real]"
  let ?state = "[0, 0, 0, 5.4514, 0, 0 :: real]"
  let ?xs = "[0.55296, 1.55296, 2.55296, 3.55296 :: real]"
  note t = speed_converted [of ?qr ?tel ?state "[0, 0, 0, 0]" ?xs "[0, 0, 0, 0]", OF run_solver_input,
      unfolded Let_def]
  note a = t [THEN conjunct1]
  note b = t [THEN conjunct2, THEN conjunct2, THEN conjunct2]
  have c: "(\<lambda>(state::vec) (coeffs::vec). [0, 0 :: real]) ?state [0, 0, 0, 0]
      = (\<lambda>(state::vec) (coeffs::vec). [0, state ! 0]) ?state [0, 0, 0, 0]"
    by simp
  have d: "on_telemetry ?qr (\<lambda>state coeffs. [0, 0]) ?tel
      = on_telemetry ?qr (\<lambda>state coeffs. [0, state ! 0]) ?tel"
    by (rule b [rule_format, of "\<lambda>state coeffs. [0, 0]" "\<lambda>state coeffs. [0, state ! 0]", OF c])
  have e: "to_car \<lparr>px_pred = 4.4704 * 0.1, py_pred = 0, psi_pred = 0, v_pred = 4.4704 + 0.981\<rparr>
        [1, 2, 3, 4] [0, 0, 0, 0] = Inr (?xs, [0, 0, 0, 0])"
    using a by simp
  show ?thesis
    by (intro conjI) (rule run_solver_input, rule e, rule d)
qed

end
